theory Spec2Isabelle
  imports Complex_Main
begin

section \<open>JavaScript numbers\<close>

text \<open>
  Every value of \<^verbatim>\<open>astro.js\<close> is a JavaScript Number. The model keeps the special
  values of IEEE 754 that decide the control flow of the program (\<open>NaN\<close> and the two
  infinities) and takes every finite value as a real number: arithmetic on finite values is
  exact, so rounding, overflow and underflow are not part of the model, and zero has no
  sign (it behaves as \<open>+0\<close>). The operators and the functions of \<^verbatim>\<open>Math\<close> follow
  ECMAScript on the special values: \<open>NaN\<close> is absorbing, every comparison with \<open>NaN\<close> is
  false, a non-zero number divided by zero is an infinity and \<open>0/0\<close> is \<open>NaN\<close>.
\<close>

datatype number = NaN | NInf | Fin real | PInf

fun number_neg :: "number \<Rightarrow> number" where
  "number_neg NaN = NaN"
| "number_neg NInf = PInf"
| "number_neg PInf = NInf"
| "number_neg (Fin a) = Fin (- a)"

fun number_add :: "number \<Rightarrow> number \<Rightarrow> number" where
  "number_add NaN _ = NaN"
| "number_add _ NaN = NaN"
| "number_add PInf NInf = NaN"
| "number_add NInf PInf = NaN"
| "number_add PInf _ = PInf"
| "number_add _ PInf = PInf"
| "number_add NInf _ = NInf"
| "number_add _ NInf = NInf"
| "number_add (Fin a) (Fin b) = Fin (a + b)"

fun number_mul :: "number \<Rightarrow> number \<Rightarrow> number" where
  "number_mul NaN _ = NaN"
| "number_mul _ NaN = NaN"
| "number_mul (Fin a) (Fin b) = Fin (a * b)"
| "number_mul (Fin a) PInf = (if a = 0 then NaN else if 0 < a then PInf else NInf)"
| "number_mul (Fin a) NInf = (if a = 0 then NaN else if 0 < a then NInf else PInf)"
| "number_mul PInf (Fin b) = (if b = 0 then NaN else if 0 < b then PInf else NInf)"
| "number_mul NInf (Fin b) = (if b = 0 then NaN else if 0 < b then NInf else PInf)"
| "number_mul PInf PInf = PInf"
| "number_mul NInf NInf = PInf"
| "number_mul PInf NInf = NInf"
| "number_mul NInf PInf = NInf"

fun number_div :: "number \<Rightarrow> number \<Rightarrow> number" where
  "number_div NaN _ = NaN"
| "number_div _ NaN = NaN"
| "number_div (Fin a) (Fin b) =
     (if b = 0 then (if a = 0 then NaN else if 0 < a then PInf else NInf) else Fin (a / b))"
| "number_div (Fin a) PInf = Fin 0"
| "number_div (Fin a) NInf = Fin 0"
| "number_div PInf (Fin b) = (if 0 \<le> b then PInf else NInf)"
| "number_div NInf (Fin b) = (if 0 \<le> b then NInf else PInf)"
| "number_div PInf PInf = NaN"
| "number_div NInf NInf = NaN"
| "number_div PInf NInf = NaN"
| "number_div NInf PInf = NaN"

instantiation number :: "{plus, minus, uminus, times, inverse}"
begin

definition plus_number :: "number \<Rightarrow> number \<Rightarrow> number" where
  "plus_number a b = number_add a b"

definition uminus_number :: "number \<Rightarrow> number" where
  "uminus_number a = number_neg a"

definition minus_number :: "number \<Rightarrow> number \<Rightarrow> number" where
  "minus_number a b = number_add a (number_neg b)"

definition times_number :: "number \<Rightarrow> number \<Rightarrow> number" where
  "times_number a b = number_mul a b"

definition divide_number :: "number \<Rightarrow> number \<Rightarrow> number" where
  "divide_number a b = number_div a b"

definition inverse_number :: "number \<Rightarrow> number" where
  "inverse_number a = number_div (Fin 1) a"

instance ..

end

text \<open>The relational operators \<^verbatim>\<open>>\<close>, \<^verbatim>\<open><=\<close> and \<^verbatim>\<open>>=\<close>: false as soon as one side is \<open>NaN\<close>.\<close>

fun js_le :: "number \<Rightarrow> number \<Rightarrow> bool" where
  "js_le NaN _ = False"
| "js_le _ NaN = False"
| "js_le NInf _ = True"
| "js_le _ PInf = True"
| "js_le PInf _ = False"
| "js_le _ NInf = False"
| "js_le (Fin a) (Fin b) = (a \<le> b)"

fun js_gt :: "number \<Rightarrow> number \<Rightarrow> bool" where
  "js_gt NaN _ = False"
| "js_gt _ NaN = False"
| "js_gt NInf _ = False"
| "js_gt _ PInf = False"
| "js_gt PInf _ = True"
| "js_gt _ NInf = True"
| "js_gt (Fin a) (Fin b) = (b < a)"

definition js_ge :: "number \<Rightarrow> number \<Rightarrow> bool" where
  "js_ge a b = js_le b a"

subsection \<open>The functions of \<^verbatim>\<open>Math\<close>\<close>

definition Math_PI :: number where
  "Math_PI = Fin pi"

fun Math_abs :: "number \<Rightarrow> number" where
  "Math_abs NaN = NaN"
| "Math_abs NInf = PInf"
| "Math_abs PInf = PInf"
| "Math_abs (Fin a) = Fin \<bar>a\<bar>"

fun Math_sin :: "number \<Rightarrow> number" where
  "Math_sin (Fin a) = Fin (sin a)"
| "Math_sin _ = NaN"

fun Math_cos :: "number \<Rightarrow> number" where
  "Math_cos (Fin a) = Fin (cos a)"
| "Math_cos _ = NaN"

fun Math_asin :: "number \<Rightarrow> number" where
  "Math_asin (Fin a) = (if \<bar>a\<bar> \<le> 1 then Fin (arcsin a) else NaN)"
| "Math_asin _ = NaN"

fun Math_acos :: "number \<Rightarrow> number" where
  "Math_acos (Fin a) = (if \<bar>a\<bar> \<le> 1 then Fin (arccos a) else NaN)"
| "Math_acos _ = NaN"

fun Math_sqrt :: "number \<Rightarrow> number" where
  "Math_sqrt (Fin a) = (if 0 \<le> a then Fin (sqrt a) else NaN)"
| "Math_sqrt PInf = PInf"
| "Math_sqrt _ = NaN"

fun Math_floor :: "number \<Rightarrow> number" where
  "Math_floor (Fin a) = Fin (of_int \<lfloor>a\<rfloor>)"
| "Math_floor n = n"

text \<open>
  \<^verbatim>\<open>Math.atan2(y, x)\<close> on finite arguments is the angle of the point \<open>(x, y)\<close> in
  \<open>(-\<pi>, \<pi>]\<close>; on the negative \<open>x\<close> axis (\<open>y = +0\<close>) it is \<open>\<pi>\<close>.
\<close>

definition atan2 :: "real \<Rightarrow> real \<Rightarrow> real" where
  "atan2 y x =
     (if 0 < x then arctan (y / x)
      else if x < 0 then (if 0 \<le> y then arctan (y / x) + pi else arctan (y / x) - pi)
      else if 0 < y then pi / 2
      else if y < 0 then - (pi / 2)
      else 0)"

fun Math_atan2 :: "number \<Rightarrow> number \<Rightarrow> number" where
  "Math_atan2 NaN _ = NaN"
| "Math_atan2 _ NaN = NaN"
| "Math_atan2 (Fin y) (Fin x) = Fin (atan2 y x)"
| "Math_atan2 (Fin y) PInf = Fin 0"
| "Math_atan2 (Fin y) NInf = (if 0 \<le> y then Fin pi else Fin (- pi))"
| "Math_atan2 PInf (Fin x) = Fin (pi / 2)"
| "Math_atan2 NInf (Fin x) = Fin (- (pi / 2))"
| "Math_atan2 PInf PInf = Fin (pi / 4)"
| "Math_atan2 PInf NInf = Fin (3 * pi / 4)"
| "Math_atan2 NInf PInf = Fin (- (pi / 4))"
| "Math_atan2 NInf NInf = Fin (- (3 * pi / 4))"

section \<open>The helpers of \<^verbatim>\<open>astro.js\<close>\<close>

text \<open>Obliquity of the ecliptic, radians.\<close>

definition obliquity :: "number \<Rightarrow> number" where
  "obliquity time = Fin 0.412994 - Fin (4121 / 10 ^ 18) * time"

text \<open>Greenwich mean sidereal time, hours (not wrapped).\<close>

definition gmst :: "number \<Rightarrow> number" where
  "gmst time = Fin 6.699851 + Fin (278538308153 / 10 ^ 18) * time"

text \<open>Parallax, degrees.\<close>

definition parallax :: "number \<Rightarrow> number" where
  "parallax distance = Fin (2443 / 10 ^ 6) / distance"

section \<open>Planet\<close>

record planet =
  time :: number
  x :: number
  y :: number
  z :: number

text \<open>
  The Newton iteration of \<^verbatim>\<open>setTime\<close> on Kepler's equation. The source's
  \<^verbatim>\<open>for(;;)\<close> has no bound: a run that never reaches \<open>|dE| \<le> 1e-8\<close> is the value \<open>None\<close>.
\<close>

partial_function (option) kepler_loop :: "number \<Rightarrow> number \<Rightarrow> number \<Rightarrow> number option" where
  "kepler_loop M e E =
     (let dM = M - (E - e * Math_sin E);
          dE = dM / (Fin 1 - e * Math_cos E);
          E' = E + dE
      in if js_le (Math_abs dE) (Fin (1 / 10 ^ 8)) then Some E' else kepler_loop M e E')"

text \<open>
  \<^verbatim>\<open>setTime(time, a, e, i, \<lambda>, \<pi>, \<Omega>)\<close> of the base class: \<open>ml\<close> is the mean
  longitude \<open>\<lambda>\<close>, \<open>lp\<close> the longitude of perihelion \<open>\<pi>\<close> and \<open>an\<close> the longitude of the
  ascending node \<open>\<Omega>\<close>. It overwrites the four fields of \<open>this\<close>, and returns nothing
  (\<open>None\<close>) when the Kepler iteration does not end.
\<close>

definition Planet_setTime ::
  "planet \<Rightarrow> number \<Rightarrow> number \<Rightarrow> number \<Rightarrow> number \<Rightarrow> number \<Rightarrow> number \<Rightarrow> number
     \<Rightarrow> planet option" where
  "Planet_setTime this t a e i ml lp an =
     (let M = ml - lp;
          w = lp - an
      in case kepler_loop M e (M + e * Math_sin M) of
           None \<Rightarrow> None
         | Some E \<Rightarrow>
            (let u = a * (Math_cos E - e);
                 v = a * Math_sqrt (Fin 1 - e * e) * Math_sin E;
                 sin_i = Math_sin i;
                 cos_i = Math_cos i;
                 sin_an = Math_sin an;
                 cos_an = Math_cos an;
                 sin_w = Math_sin w;
                 cos_w = Math_cos w;
                 x' = u * (cos_w * cos_an - sin_w * sin_an * cos_i)
                    + v * ((- sin_w) * cos_an - cos_w * sin_an * cos_i);
                 y' = u * (cos_w * sin_an + sin_w * cos_an * cos_i)
                    + v * ((- sin_w) * sin_an + cos_w * cos_an * cos_i);
                 z' = u * (sin_w * sin_i) + v * (cos_w * sin_i)
             in Some (this\<lparr>time := t, x := x', y := y', z := z'\<rparr>)))"

text \<open>The getters: nothing is stored, each is computed from the four fields.\<close>

definition distance :: "planet \<Rightarrow> number" where
  "distance this = Math_sqrt (x this * x this + y this * y this + z this * z this)"

definition longitude :: "planet \<Rightarrow> number" where
  "longitude this = Math_atan2 (- y this) (- x this) * (Fin 180 / Math_PI) + Fin 180"

definition latitude :: "planet \<Rightarrow> number" where
  "latitude this = Math_asin (z this / distance this) * (Fin 180 / Math_PI)"

definition right_ascension :: "planet \<Rightarrow> number" where
  "right_ascension this =
     (let e = obliquity (time this)
      in Math_atan2 (z this * Math_sin e - y this * Math_cos e) (- x this) * (Fin 12 / Math_PI)
           + Fin 12)"

definition declination :: "planet \<Rightarrow> number" where
  "declination this =
     (let e = obliquity (time this)
      in Math_asin ((y this * Math_sin e + z this * Math_cos e) / distance this)
           * (Fin 180 / Math_PI))"

text \<open>
  \<^verbatim>\<open>hour_angle(lon)\<close>. On finite numbers the wrap \<open>ha - floor(ha/24)\<cdot>24\<close> is computed
  exactly here, so that its value lies in \<open>[0, 24)\<close>. The program rounds each operation: its
  result can be 24 itself when \<open>ha\<close> is a tiny negative number, and it has no digit left
  below 24 when \<open>|time|\<close> is very large (beyond \<open>1e22\<close>, say). No statement below asserts
  the open end of the interval, and the statement on \<^verbatim>\<open>transit\<close> bounds the time and the
  longitude.
\<close>

definition hour_angle :: "planet \<Rightarrow> number \<Rightarrow> number" where
  "hour_angle this lon =
     (let ha = gmst (time this) + lon * (Fin 1 / Fin 15) - right_ascension this
      in ha - Math_floor (ha / Fin 24) * Fin 24)"

text \<open>\<^verbatim>\<open>transit(lat, lon)\<close>: the latitude is a parameter of the source and is kept.\<close>

definition transit :: "planet \<Rightarrow> number \<Rightarrow> number \<Rightarrow> number" where
  "transit this lat lon =
     (let ha = hour_angle this lon;
          ha' = (if js_gt ha (Fin 12) then ha - Fin 24 else ha)
      in time this - Fin 3590170.4 * ha')"

subsection \<open>The rise and set solver\<close>

text \<open>
  One evaluation of the loop of \<^verbatim>\<open>riseset\<close>, on the constants computed before the loop
  (\<open>sin_lat\<close>, \<open>cos_lat\<close>, \<open>sin_h0\<close>) and the current fields of \<open>this\<close>: the value of
  \<open>cos_lha\<close>, the candidate time, and what the loop does next. The product
  \<open>13713440.9\<cdot>direction\<close> is exact here; in the program it is an infinity when
  \<open>|direction|\<close> exceeds about \<open>1.3e301\<close>, and the methods of the classes pass -1 or 1.
\<close>

definition riseset_cos_lha :: "number \<Rightarrow> number \<Rightarrow> number \<Rightarrow> planet \<Rightarrow> number" where
  "riseset_cos_lha sin_lat cos_lat sin_h0 this =
     (let dec = declination this;
          sin_dec = Math_sin (dec * (Math_PI / Fin 180));
          cos_dec = Math_cos (dec * (Math_PI / Fin 180))
      in (sin_h0 - sin_lat * sin_dec) / (cos_lat * cos_dec))"

definition riseset_candidate ::
  "number \<Rightarrow> number \<Rightarrow> number \<Rightarrow> number \<Rightarrow> number \<Rightarrow> number \<Rightarrow> planet \<Rightarrow> number" where
  "riseset_candidate sin_lat cos_lat sin_h0 lat lon direction this =
     transit this lat lon
       + Fin 13713440.9 * direction * Math_acos (riseset_cos_lha sin_lat cos_lat sin_h0 this)"

datatype outcome = Bail | Again number | Found number

definition riseset_body ::
  "number \<Rightarrow> number \<Rightarrow> number \<Rightarrow> number \<Rightarrow> number \<Rightarrow> number \<Rightarrow> planet \<Rightarrow> outcome" where
  "riseset_body sin_lat cos_lat sin_h0 lat lon direction this =
     (if js_gt (Math_abs (riseset_cos_lha sin_lat cos_lat sin_h0 this)) (Fin 1) then Bail
      else let riseset = riseset_candidate sin_lat cos_lat sin_h0 lat lon direction this
           in if js_ge (Math_abs (riseset - time this)) (Fin 60000) then Again riseset
              else Found riseset)"

text \<open>
  The loop. \<open>setTime\<close> is the method of the object's class (the source calls
  \<^verbatim>\<open>this.setTime(riseset)\<close>, which the subclass overrides), \<open>saved\<close> holds the fields
  saved at entry, and the result is the returned number together with the fields of
  \<open>this\<close> as the call leaves them. \<open>None\<close> is a run that never returns.
\<close>

partial_function (option) riseset_loop ::
  "(planet \<Rightarrow> number \<Rightarrow> planet option) \<Rightarrow> planet \<Rightarrow> number \<Rightarrow> number \<Rightarrow> number \<Rightarrow> number
     \<Rightarrow> number \<Rightarrow> number \<Rightarrow> planet \<Rightarrow> (number \<times> planet) option" where
  "riseset_loop setTime saved sin_lat cos_lat sin_h0 lat lon direction this =
     (case riseset_body sin_lat cos_lat sin_h0 lat lon direction this of
        Bail \<Rightarrow>
          Some (NaN, this\<lparr>time := time saved, x := x saved, y := y saved, z := z saved\<rparr>)
      | Again riseset \<Rightarrow>
          (case setTime this riseset of
             None \<Rightarrow> None
           | Some this' \<Rightarrow>
               riseset_loop setTime saved sin_lat cos_lat sin_h0 lat lon direction this')
      | Found riseset \<Rightarrow>
          Some (riseset, this\<lparr>time := time saved, x := x saved, y := y saved, z := z saved\<rparr>))"

definition riseset ::
  "(planet \<Rightarrow> number \<Rightarrow> planet option) \<Rightarrow> planet \<Rightarrow> number \<Rightarrow> number \<Rightarrow> number \<Rightarrow> number
     \<Rightarrow> (number \<times> planet) option" where
  "riseset setTime this lat lon h0 direction =
     (let saved = this;
          sin_lat = Math_sin (lat * (Math_PI / Fin 180));
          cos_lat = Math_cos (lat * (Math_PI / Fin 180));
          sin_h0 = Math_sin (h0 * (Math_PI / Fin 180))
      in riseset_loop setTime saved sin_lat cos_lat sin_h0 lat lon direction this)"

text \<open>
  The fields of \<open>this\<close> at the start of evaluation \<open>k\<close> of the loop (counted from 0):
  defined as long as every earlier evaluation asked for another one and \<open>setTime\<close> returned.
\<close>

primrec riseset_at ::
  "(planet \<Rightarrow> number \<Rightarrow> planet option) \<Rightarrow> number \<Rightarrow> number \<Rightarrow> number \<Rightarrow> number \<Rightarrow> number
     \<Rightarrow> number \<Rightarrow> nat \<Rightarrow> planet \<Rightarrow> planet option" where
  "riseset_at setTime sin_lat cos_lat sin_h0 lat lon direction 0 this = Some this"
| "riseset_at setTime sin_lat cos_lat sin_h0 lat lon direction (Suc k) this =
     (case riseset_body sin_lat cos_lat sin_h0 lat lon direction this of
        Again t \<Rightarrow>
          (case setTime this t of
             None \<Rightarrow> None
           | Some this' \<Rightarrow> riseset_at setTime sin_lat cos_lat sin_h0 lat lon direction k this')
      | _ \<Rightarrow> None)"

text \<open>The convenience methods of the base class.\<close>

definition Planet_rise ::
  "(planet \<Rightarrow> number \<Rightarrow> planet option) \<Rightarrow> planet \<Rightarrow> number \<Rightarrow> number
     \<Rightarrow> (number \<times> planet) option" where
  "Planet_rise setTime this lat lon = riseset setTime this lat lon (Fin 0) (Fin (- 1))"

definition Planet_set ::
  "(planet \<Rightarrow> number \<Rightarrow> planet option) \<Rightarrow> planet \<Rightarrow> number \<Rightarrow> number
     \<Rightarrow> (number \<times> planet) option" where
  "Planet_set setTime this lat lon = riseset setTime this lat lon (Fin 0) (Fin 1)"

section \<open>Sun\<close>

definition Sun_setTime :: "planet \<Rightarrow> number \<Rightarrow> planet option" where
  "Sun_setTime this t =
     Planet_setTime this t
       (Fin 1.000001)
       (Fin 0.016721 - Fin (13 / 10 ^ 18) * t)
       (Fin 0)
       (Fin 4.891045 + Fin (199106385 / 10 ^ 18) * t)
       (Fin 4.929185 + Fin (9510 / 10 ^ 18) * t)
       (Fin 0)"

definition Sun_dawn :: "planet \<Rightarrow> number \<Rightarrow> number \<Rightarrow> (number \<times> planet) option" where
  "Sun_dawn this lat lon = riseset Sun_setTime this lat lon (Fin (- 6)) (Fin (- 1))"

definition Sun_rise :: "planet \<Rightarrow> number \<Rightarrow> number \<Rightarrow> (number \<times> planet) option" where
  "Sun_rise this lat lon = riseset Sun_setTime this lat lon (Fin (- 0.833)) (Fin (- 1))"

definition Sun_set :: "planet \<Rightarrow> number \<Rightarrow> number \<Rightarrow> (number \<times> planet) option" where
  "Sun_set this lat lon = riseset Sun_setTime this lat lon (Fin (- 0.833)) (Fin 1)"

definition Sun_dusk :: "planet \<Rightarrow> number \<Rightarrow> number \<Rightarrow> (number \<times> planet) option" where
  "Sun_dusk this lat lon = riseset Sun_setTime this lat lon (Fin (- 6)) (Fin 1)"

section \<open>Moon\<close>

definition Moon_setTime :: "planet \<Rightarrow> number \<Rightarrow> planet option" where
  "Moon_setTime this t =
     Planet_setTime this t
       (Fin 0.002563)
       (Fin 0.055546)
       (Fin 0.090001)
       (Fin 3.455090 + Fin (2661707199 / 10 ^ 18) * t)
       (Fin 5.282226 + Fin (22504146 / 10 ^ 18) * t)
       (Fin 6.026367 - Fin (10696962 / 10 ^ 18) * t)"

definition Moon_rise :: "planet \<Rightarrow> number \<Rightarrow> number \<Rightarrow> (number \<times> planet) option" where
  "Moon_rise this lat lon =
     riseset Moon_setTime this lat lon (Fin (- 0.583) - parallax (distance this)) (Fin (- 1))"

definition Moon_set :: "planet \<Rightarrow> number \<Rightarrow> number \<Rightarrow> (number \<times> planet) option" where
  "Moon_set this lat lon =
     riseset Moon_setTime this lat lon (Fin (- 0.583) - parallax (distance this)) (Fin 1)"

section \<open>Notions used by the properties\<close>

text \<open>A number that is neither \<open>NaN\<close> nor an infinity.\<close>

fun is_finite :: "number \<Rightarrow> bool" where
  "is_finite (Fin a) = True"
| "is_finite _ = False"

text \<open>
  How a returning call of the loop left it: after some number \<open>k\<close> of evaluations that each
  asked for another one, evaluation \<open>k\<close> either bailed out (the result is \<open>NaN\<close>) or accepted
  its candidate; \<open>res\<close> is the returned number with the fields the call leaves behind.
\<close>

definition riseset_exit ::
  "(planet \<Rightarrow> number \<Rightarrow> planet option) \<Rightarrow> planet \<Rightarrow> number \<Rightarrow> number \<Rightarrow> number \<Rightarrow> number
     \<Rightarrow> number \<Rightarrow> number \<Rightarrow> planet \<Rightarrow> number \<times> planet \<Rightarrow> bool" where
  "riseset_exit setTime saved sin_lat cos_lat sin_h0 lat lon direction this res =
     (\<exists>k this_k. riseset_at setTime sin_lat cos_lat sin_h0 lat lon direction k this = Some this_k
        \<and> snd res = saved
        \<and> (riseset_body sin_lat cos_lat sin_h0 lat lon direction this_k = Bail \<and> fst res = NaN
           \<or> riseset_body sin_lat cos_lat sin_h0 lat lon direction this_k = Found (fst res)))"

text \<open>
  A body on the positive \<open>x\<close> axis at the epoch, and a longitude at which it has passed
  the meridian by a hundredth of an hour then.
\<close>

definition on_axis :: planet where
  "on_axis = \<lparr>time = Fin 0, x = Fin 1, y = Fin 0, z = Fin 0\<rparr>"

definition on_axis_lon :: number where
  "on_axis_lon = Fin 259.652235"

text \<open>
  The elements that \<^verbatim>\<open>Sun.setTime\<close> passes to the base class at a finite time \<open>t\<close>:
  semi-major axis, eccentricity, longitude of perihelion and mean longitude (the inclination
  and the node are 0).
\<close>

definition sun_a :: real where "sun_a = 1.000001"
definition sun_e :: "real \<Rightarrow> real" where "sun_e t = 0.016721 - 13 / 10 ^ 18 * t"
definition sun_lp :: "real \<Rightarrow> real" where "sun_lp t = 4.929185 + 9510 / 10 ^ 18 * t"
definition sun_ml :: "real \<Rightarrow> real" where "sun_ml t = 4.891045 + 199106385 / 10 ^ 18 * t"

text \<open>
  Two instants: the one at which the Sun's mean anomaly \<open>\<lambda> - \<pi>\<close> is 0, about 2.2 days
  after the epoch, and one about four million years before it, at which the mean anomaly
  is \<open>-8000000\<pi>\<close> and the eccentricity formula gives more than 1.
\<close>

definition perihelion :: real where
  "perihelion = 0.03814 / (199096875 / 10 ^ 18)"

definition far_past :: real where
  "far_past = (0.03814 - 8000000 * pi) / (199096875 / 10 ^ 18)"

text \<open>
  The fields that \<^verbatim>\<open>Sun.setTime\<close> leaves at the perihelion (the Kepler iteration ends there
  with \<open>E = 0\<close>), and two bodies from which one evaluation of the solver steps to the
  perihelion. The first is on the \<open>x\<close> axis, an hour of hour angle after the perihelion,
  with a longitude at which its hour angle is 1. The second has the right ascension of the
  Sun at the perihelion, an hour and a quarter turn after it, again with a longitude at
  which its hour angle is 1; \<open>quarter_before_result\<close> is the candidate that the solver
  computes at the perihelion for that longitude, the threshold 0 and the direction -1.
\<close>

definition sun_at_perihelion :: planet where
  "sun_at_perihelion =
     \<lparr>time = Fin perihelion,
      x = Fin (sun_a * (1 - sun_e perihelion) * cos (sun_lp perihelion)),
      y = Fin (sun_a * (1 - sun_e perihelion) * sin (sun_lp perihelion)),
      z = Fin 0\<rparr>"

definition hour_before :: planet where
  "hour_before = \<lparr>time = Fin (perihelion + 3590170.4), x = Fin 1, y = Fin 0, z = Fin 0\<rparr>"

definition hour_before_lon :: number where
  "hour_before_lon =
     Fin (15 * (73 - (6.699851 + 278538308153 / 10 ^ 18 * (perihelion + 3590170.4))))"

definition quarter_before_time :: real where
  "quarter_before_time = perihelion + 3590170.4 + 13713440.9 * (pi / 2)"

definition perihelion_ra :: real where
  "perihelion_ra =
     atan2 (0 * sin (0.412994 - 4121 / 10 ^ 18 * perihelion)
            - sun_a * (1 - sun_e perihelion) * sin (sun_lp perihelion)
              * cos (0.412994 - 4121 / 10 ^ 18 * perihelion))
       (- (sun_a * (1 - sun_e perihelion) * cos (sun_lp perihelion))) * (12 / pi) + 12"

definition quarter_before :: planet where
  "quarter_before =
     \<lparr>time = Fin quarter_before_time,
      x = Fin (sun_a * (1 - sun_e perihelion) * cos (sun_lp perihelion)),
      y = Fin (sun_a * (1 - sun_e perihelion) * sin (sun_lp perihelion)
            * cos (0.412994 - 4121 / 10 ^ 18 * perihelion)
            / cos (0.412994 - 4121 / 10 ^ 18 * quarter_before_time)),
      z = Fin 0\<rparr>"

definition quarter_before_lon :: number where
  "quarter_before_lon =
     Fin (15 * (49 + perihelion_ra - (6.699851 + 278538308153 / 10 ^ 18 * quarter_before_time)))"

definition quarter_before_result :: real where
  "quarter_before_result =
     perihelion - 3590170.4 * (1 - 278538308153 / 10 ^ 18 * (3590170.4 + 13713440.9 * (pi / 2)))
       - 13713440.9 * (pi / 2)"

text \<open>
  The elements that \<^verbatim>\<open>Moon.setTime\<close> passes to the base class at a finite time \<open>t\<close>, and
  the instant at which the Moon's mean anomaly is 0, about 8 days after the epoch.
\<close>

definition moon_a :: real where "moon_a = 0.002563"
definition moon_e :: real where "moon_e = 0.055546"
definition moon_i :: real where "moon_i = 0.090001"
definition moon_ml :: "real \<Rightarrow> real" where "moon_ml t = 3.455090 + 2661707199 / 10 ^ 18 * t"
definition moon_lp :: "real \<Rightarrow> real" where "moon_lp t = 5.282226 + 22504146 / 10 ^ 18 * t"
definition moon_an :: "real \<Rightarrow> real" where "moon_an t = 6.026367 - 10696962 / 10 ^ 18 * t"

definition perigee :: real where
  "perigee = 1.827136 / (2639203053 / 10 ^ 18)"

text \<open>
  The value of \<open>sin_h0\<close> that \<^verbatim>\<open>riseset\<close> computes when \<^verbatim>\<open>Moon.rise\<close> or \<^verbatim>\<open>Moon.set\<close>
  is called on a body with these fields: the sine of \<open>-0.583 - parallax(distance)\<close> degrees.
\<close>

definition Moon_sin_h0 :: "planet \<Rightarrow> number" where
  "Moon_sin_h0 this =
     Math_sin ((Fin (- 0.583) - parallax (distance this)) * (Math_PI / Fin 180))"

text \<open>The direction of the Moon at perigee: the unit vector of its position.\<close>

definition perigee_dir :: "real \<times> real \<times> real" where
  "perigee_dir =
     (let w = moon_lp perigee - moon_an perigee; an = moon_an perigee
      in (cos w * cos an - sin w * sin an * cos moon_i,
          cos w * sin an + sin w * cos an * cos moon_i,
          sin w * sin moon_i))"

text \<open>
  A Moon object whose fields hold a point on the \<open>x\<close> axis at the distance where the
  parallax is 179.417 degrees (so that the threshold is -180 degrees and its sine is 0), a
  quarter of a hour-angle turn after the perigee; the longitude at which that point is on
  the meridian; and the fields after \<^verbatim>\<open>setTime\<close> at the perigee.
\<close>

definition moon_entry_time :: real where
  "moon_entry_time = perigee + 13713440.9 * (pi / 2)"

definition moon_entry_x :: real where
  "moon_entry_x = 2443 / 10 ^ 6 / 179.417"

definition moon_entry :: planet where
  "moon_entry = \<lparr>time = Fin moon_entry_time, x = Fin moon_entry_x, y = Fin 0, z = Fin 0\<rparr>"

definition moon_entry_lon :: number where
  "moon_entry_lon = Fin (15 * (216 - (6.699851 + 278538308153 / 10 ^ 18 * moon_entry_time)))"

definition moon_at_perigee :: planet where
  "moon_at_perigee = moon_entry\<lparr>time := Fin perigee,
       x := Fin (moon_a * (1 - moon_e) * fst perigee_dir),
       y := Fin (moon_a * (1 - moon_e) * fst (snd perigee_dir)),
       z := Fin (moon_a * (1 - moon_e) * snd (snd perigee_dir))\<rparr>"

text \<open>
  The Kepler iteration with a bound on the number of evaluations of the loop body:
  \<open>kepler_fuel n\<close> is the loop of \<^verbatim>\<open>setTime\<close> stopped after \<open>n\<close> evaluations, and is \<open>None\<close>
  when the loop has not left by then.
\<close>

primrec kepler_fuel :: "nat \<Rightarrow> number \<Rightarrow> number \<Rightarrow> number \<Rightarrow> number option" where
  "kepler_fuel 0 M e E = None"
| "kepler_fuel (Suc n) M e E =
     (let dM = M - (E - e * Math_sin E);
          dE = dM / (Fin 1 - e * Math_cos E);
          E' = E + dE
      in if js_le (Math_abs dE) (Fin (1 / 10 ^ 8)) then Some E' else kepler_fuel n M e E')"

text \<open>
  The same iteration on real numbers, for an eccentricity below 1 (the divisor
  \<open>1 - e\<cdot>cos(E)\<close> is never 0 there): the increment \<open>dE\<close> of one evaluation, and the run
  with a bound on the evaluations.
\<close>

definition kepler_dE :: "real \<Rightarrow> real \<Rightarrow> real \<Rightarrow> real" where
  "kepler_dE M e E = (M - (E - e * sin E)) / (1 - e * cos E)"

primrec kepler_run :: "nat \<Rightarrow> real \<Rightarrow> real \<Rightarrow> real \<Rightarrow> real option" where
  "kepler_run 0 M e E = None"
| "kepler_run (Suc n) M e E =
     (if \<bar>kepler_dE M e E\<bar> \<le> 1 / 10 ^ 8 then Some (E + kepler_dE M e E)
      else kepler_run n M e (E + kepler_dE M e E))"

text \<open>
  A list of bounds on the distance to the root of Kepler's equation: each bound \<open>b\<close>
  follows a bound \<open>a\<close> with \<open>9a\<^sup>2/(1 + 9a) \<le> b\<close>, and the last one is at most \<open>1e-8\<close>.
\<close>

fun chain_ok :: "real list \<Rightarrow> bool" where
  "chain_ok [] = False"
| "chain_ok [a] = (a \<le> 1 / 10 ^ 8)"
| "chain_ok (a # b # bs) = (9 * a * a \<le> b * (1 + 9 * a) \<and> chain_ok (b # bs))"

definition kepler_chain :: "real list" where
  "kepler_chain =
     [4, 39 / 10, 19 / 5, 37 / 10, 18 / 5, 7 / 2,
      17 / 5, 33 / 10, 16 / 5, 31 / 10, 3, 29 / 10,
      14 / 5, 27 / 10, 13 / 5, 5 / 2, 12 / 5, 23 / 10,
      11 / 5, 21 / 10, 2, 19 / 10, 9 / 5, 17 / 10,
      8 / 5, 3 / 2, 7 / 5, 13 / 10, 6 / 5, 11 / 10,
      1, 9 / 10, 401 / 500, 141 / 200, 61 / 100, 517 / 1000,
      213 / 500, 169 / 500, 51 / 200, 89 / 500, 11 / 100, 137 / 2500,
      91 / 5000, 257 / 100000, 291 / 5000000, 61 / 2000000000, 419 / 50000000000000000]"

section \<open>Arithmetic on finite numbers\<close>

lemma Fin_plus [simp]: "Fin a + Fin b = Fin (a + b)"
  by (simp add: plus_number_def)
lemma Fin_minus [simp]: "Fin a - Fin b = Fin (a - b)"
  by (simp add: minus_number_def)
lemma Fin_uminus [simp]: "- Fin a = Fin (- a)"
  by (simp add: uminus_number_def)
lemma Fin_times [simp]: "Fin a * Fin b = Fin (a * b)"
  by (simp add: times_number_def)
lemma Fin_divide [simp]: "b \<noteq> 0 \<Longrightarrow> Fin a / Fin b = Fin (a / b)"
  by (simp add: divide_number_def)
lemma Fin_divide_zero: "Fin a / Fin 0 = (if a = 0 then NaN else if 0 < a then PInf else NInf)"
  by (simp add: divide_number_def)

lemma js_le_FinD: "js_le (Math_abs a) (Fin b) \<Longrightarrow> \<exists>d. a = Fin d \<and> \<bar>d\<bar> \<le> b"
  by (cases a) simp_all

lemma is_finiteE: "is_finite n \<Longrightarrow> (\<And>a. n = Fin a \<Longrightarrow> thesis) \<Longrightarrow> thesis"
  by (cases n) simp_all

section \<open>The loop of the solver\<close>

lemma restore_saved:
  "(this :: planet)\<lparr>time := time saved, x := x saved, y := y saved, z := z saved\<rparr> = saved"
  by simp

lemma riseset_loop_exit:
  assumes "riseset_loop setTime saved sin_lat cos_lat sin_h0 lat lon direction this = Some res"
  shows "riseset_exit setTime saved sin_lat cos_lat sin_h0 lat lon direction this res"
proof (rule riseset_loop.raw_induct [where P = riseset_exit, OF _ assms])
  fix loop st sv sl cl sh la lo di b r
  assume IH: "\<And>st sv sl cl sh la lo di b r.
      loop st sv sl cl sh la lo di b = Some r \<Longrightarrow> riseset_exit st sv sl cl sh la lo di b r"
    and run: "(case riseset_body sl cl sh la lo di b of
        Bail \<Rightarrow> Some (NaN, b\<lparr>time := time sv, x := x sv, y := y sv, z := z sv\<rparr>)
      | Again t \<Rightarrow>
          (case st b t of None \<Rightarrow> None | Some b' \<Rightarrow> loop st sv sl cl sh la lo di b')
      | Found t \<Rightarrow> Some (t, b\<lparr>time := time sv, x := x sv, y := y sv, z := z sv\<rparr>))
       = Some (r :: number \<times> planet)"
  show "riseset_exit st sv sl cl sh la lo di b r"
  proof (cases "riseset_body sl cl sh la lo di b")
    case Bail
    with run have "r = (NaN, sv)" by (simp add: restore_saved)
    with Bail have "riseset_at st sl cl sh la lo di 0 b = Some b \<and> snd r = sv
        \<and> riseset_body sl cl sh la lo di b = Bail \<and> fst r = NaN"
      by simp
    then show ?thesis unfolding riseset_exit_def by blast
  next
    case (Again t)
    show ?thesis
    proof (cases "st b t")
      case None
      with Again run show ?thesis by simp
    next
      case (Some b')
      with Again run have "loop st sv sl cl sh la lo di b' = Some r"
        by simp
      then have "riseset_exit st sv sl cl sh la lo di b' r" by (rule IH)
      then obtain k bk where k: "riseset_at st sl cl sh la lo di k b' = Some bk"
        and rest: "snd r = sv \<and> (riseset_body sl cl sh la lo di bk = Bail \<and> fst r = NaN
           \<or> riseset_body sl cl sh la lo di bk = Found (fst r))"
        unfolding riseset_exit_def by blast
      from k Again Some have "riseset_at st sl cl sh la lo di (Suc k) b = Some bk"
        by simp
      with rest show ?thesis unfolding riseset_exit_def by blast
    qed
  next
    case (Found t)
    with run have "r = (t, sv)" by (simp add: restore_saved)
    with Found have "riseset_at st sl cl sh la lo di 0 b = Some b \<and> snd r = sv
        \<and> riseset_body sl cl sh la lo di b = Found (fst r)"
      by simp
    then show ?thesis unfolding riseset_exit_def by blast
  qed
qed

section \<open>Angles\<close>

lemma atan2_bounds: "- pi < atan2 b a \<and> atan2 b a \<le> pi"
proof -
  have l: "- (pi / 2) < arctan (b / a)" by (rule arctan_lbound)
  have u: "arctan (b / a) < pi / 2" by (rule arctan_ubound)
  have pos: "0 < pi" by (rule pi_gt_zero)
  consider "0 < a" | "a < 0" "0 \<le> b" | "a < 0" "b < 0" | "a = 0" "0 < b" | "a = 0" "b < 0"
    | "a = 0" "b = 0"
    by linarith
  then show ?thesis
  proof cases
    case 1
    then have "atan2 b a = arctan (b / a)" by (simp add: atan2_def)
    with l u pos show ?thesis by linarith
  next
    case 2
    then have "b / a \<le> 0" by (simp add: divide_nonneg_neg)
    then have "arctan (b / a) \<le> 0" by (simp add: arctan_le_zero_iff)
    moreover from 2 have "atan2 b a = arctan (b / a) + pi" by (simp add: atan2_def)
    ultimately show ?thesis using l pos by linarith
  next
    case 3
    then have "0 < b / a" by (simp add: divide_neg_neg)
    then have "0 < arctan (b / a)" by (simp add: zero_less_arctan_iff)
    moreover from 3 have "atan2 b a = arctan (b / a) - pi" by (simp add: atan2_def)
    ultimately show ?thesis using u pos by linarith
  next
    case 4
    then have "atan2 b a = pi / 2" by (simp add: atan2_def)
    with pos show ?thesis by linarith
  next
    case 5
    then have "atan2 b a = - (pi / 2)" by (simp add: atan2_def)
    with pos show ?thesis by linarith
  next
    case 6
    then have "atan2 b a = 0" by (simp add: atan2_def)
    with pos show ?thesis by linarith
  qed
qed

lemma pi_ge_3: "3 \<le> pi"
proof -
  have "sin (pi / 6) \<le> pi / 6" by (intro sin_x_le_x) simp
  then show ?thesis by (simp add: sin_30)
qed

lemma obliquity_Fin: "obliquity (Fin t) = Fin (0.412994 - 4121 / 10 ^ 18 * t)"
  by (simp add: obliquity_def)

lemma gmst_Fin: "gmst (Fin t) = Fin (6.699851 + 278538308153 / 10 ^ 18 * t)"
  by (simp add: gmst_def)

lemma longitude_Fin:
  "x this = Fin a \<Longrightarrow> y this = Fin b \<Longrightarrow> longitude this = Fin (atan2 (- b) (- a) * (180 / pi) + 180)"
  by (simp add: longitude_def Math_PI_def)

lemma right_ascension_Fin:
  assumes "time this = Fin t" "x this = Fin a" "y this = Fin b" "z this = Fin c"
  shows "right_ascension this =
     Fin (atan2 (c * sin (0.412994 - 4121 / 10 ^ 18 * t) - b * cos (0.412994 - 4121 / 10 ^ 18 * t)) (- a)
           * (12 / pi) + 12)"
  using assms by (simp add: right_ascension_def obliquity_Fin Math_PI_def)

lemma scaled_angle_bounds:
  assumes "- pi < v \<and> v \<le> pi" "0 < k"
  shows "0 \<le> v * (k / pi) + k \<and> v * (k / pi) + k \<le> 2 * k"
proof -
  have pos: "0 < pi" by (rule pi_gt_zero)
  have eq: "v * (k / pi) + k = (v / pi + 1) * k" by (simp add: field_simps)
  from assms(1) pos have "- 1 < v / pi" "v / pi \<le> 1"
    by (simp_all add: field_simps)
  then have "0 \<le> v / pi + 1" "v / pi + 1 \<le> 2" by simp_all
  with assms(2) have "0 \<le> (v / pi + 1) * k" "(v / pi + 1) * k \<le> 2 * k"
    by (simp_all add: mult_right_mono)
  with eq show ?thesis by simp
qed

section \<open>The body on the axis\<close>

lemma on_axis_fields [simp]:
  "time on_axis = Fin 0" "x on_axis = Fin 1" "y on_axis = Fin 0" "z on_axis = Fin 0"
  by (simp_all add: on_axis_def)

lemma on_axis_distance: "distance on_axis = Fin 1"
  by (simp add: distance_def)

lemma on_axis_declination: "declination on_axis = Fin 0"
  by (simp add: declination_def on_axis_distance obliquity_Fin Math_PI_def)

lemma on_axis_right_ascension: "right_ascension on_axis = Fin 24"
  by (simp add: right_ascension_Fin [where t = 0 and a = 1 and b = 0 and c = 0] atan2_def)

lemma on_axis_hour_angle: "hour_angle on_axis on_axis_lon = Fin (1 / 100)"
  by (simp add: hour_angle_def on_axis_right_ascension gmst_Fin on_axis_lon_def)

lemma on_axis_transit: "transit on_axis lat on_axis_lon = Fin (- 35901.704)"
  by (simp add: transit_def on_axis_hour_angle)

lemma on_axis_cos_lha: "riseset_cos_lha (Fin 0) (Fin 1) (Fin 1) on_axis = Fin 1"
  by (simp add: riseset_cos_lha_def on_axis_declination Math_PI_def)

lemma on_axis_body:
  "riseset_body (Fin 0) (Fin 1) (Fin 1) lat on_axis_lon (Fin (- 1)) on_axis
     = Found (Fin (- 35901.704))"
  by (simp add: riseset_body_def riseset_candidate_def on_axis_cos_lha on_axis_transit js_ge_def)

lemma on_axis_riseset:
  "riseset setTime on_axis (Fin 0) on_axis_lon (Fin 90) (Fin (- 1))
     = Some (Fin (- 35901.704), on_axis)"
proof -
  have "Math_sin (Fin 90 * (Math_PI / Fin 180)) = Fin 1"
    by (simp add: Math_PI_def)
  moreover have "Math_sin (Fin 0 * (Math_PI / Fin 180)) = Fin 0"
    "Math_cos (Fin 0 * (Math_PI / Fin 180)) = Fin 1"
    by (simp_all add: Math_PI_def)
  ultimately show ?thesis
    by (simp add: riseset_def riseset_loop.simps [of _ _ _ _ _ _ _ _ on_axis] on_axis_body)
qed

lemma on_axis_finite:
  "is_finite (time on_axis)" "is_finite (x on_axis)" "is_finite (y on_axis)"
  "is_finite (z on_axis)" "is_finite on_axis_lon"
  by (simp_all add: on_axis_lon_def)

lemma on_axis_riseset_bail:
  "riseset setTime on_axis (Fin 90) lon (Fin 90) direction = Some (NaN, on_axis)"
proof -
  have "Math_sin (Fin 90 * (Math_PI / Fin 180)) = Fin 1"
    "Math_cos (Fin 90 * (Math_PI / Fin 180)) = Fin 0"
    by (simp_all add: Math_PI_def)
  moreover have "riseset_cos_lha (Fin 1) (Fin 0) (Fin 1) on_axis = PInf"
    by (simp add: riseset_cos_lha_def on_axis_declination Math_PI_def Fin_divide_zero)
  ultimately show ?thesis
    by (simp add: riseset_def riseset_loop.simps [of _ _ _ _ _ _ _ _ on_axis] riseset_body_def)
qed

section \<open>The solver leaves the body as it found it\<close>

lemma riseset_restores:
  assumes "riseset setTime this lat lon h0 direction = Some (r, this')"
  shows "this' = this"
proof -
  from assms have "riseset_exit setTime this (Math_sin (lat * (Math_PI / Fin 180)))
      (Math_cos (lat * (Math_PI / Fin 180))) (Math_sin (h0 * (Math_PI / Fin 180)))
      lat lon direction this (r, this')"
    by (simp add: riseset_def riseset_loop_exit)
  then show ?thesis by (auto simp add: riseset_exit_def)
qed

text \<open>
  Claim C2. A call of \<^verbatim>\<open>riseset\<close> that returns, on the path that returns \<open>NaN\<close> as on the
  path that returns a candidate, leaves \<open>time\<close>, \<open>x\<close>, \<open>y\<close> and \<open>z\<close> of the body as they were
  before the call, and so the distance, the right ascension and the declination; this
  holds whatever the class of the body (whatever its \<open>setTime\<close>), the latitude, the
  longitude, the threshold and the direction, and so for \<^verbatim>\<open>rise\<close>, \<^verbatim>\<open>set\<close>, \<^verbatim>\<open>dawn\<close> and
  \<^verbatim>\<open>dusk\<close> of the three classes, which are calls of \<^verbatim>\<open>riseset\<close>.
\<close>

theorem riseset_preserves_state:
  assumes "call = riseset setTime this lat lon h0 direction
      \<or> call = Planet_rise setTime this lat lon \<or> call = Planet_set setTime this lat lon
      \<or> call = Sun_dawn this lat lon \<or> call = Sun_rise this lat lon
      \<or> call = Sun_set this lat lon \<or> call = Sun_dusk this lat lon
      \<or> call = Moon_rise this lat lon \<or> call = Moon_set this lat lon"
    and "call = Some (r, this')"
  shows "this' = this \<and> time this' = time this \<and> x this' = x this \<and> y this' = y this
      \<and> z this' = z this \<and> distance this' = distance this
      \<and> right_ascension this' = right_ascension this \<and> declination this' = declination this"
proof -
  from assms(1) obtain st h d where "call = riseset st this lat lon h d"
    unfolding Planet_rise_def Planet_set_def Sun_dawn_def Sun_rise_def Sun_set_def Sun_dusk_def
      Moon_rise_def Moon_set_def
    by blast
  with assms(2) have "riseset st this lat lon h d = Some (r, this')" by simp
  then have "this' = this" by (rule riseset_restores)
  then show ?thesis by simp
qed

section \<open>Transit\<close>

text \<open>
  Claim C7. \<^verbatim>\<open>transit\<close> does not depend on its latitude: for every body, every longitude
  and any two latitudes the results are the same.
\<close>

theorem transit_ignores_latitude: "transit this lat1 lon = transit this lat2 lon"
  by (simp add: transit_def)

lemma wrap_24:
  fixes raw :: real
  shows "0 \<le> raw - of_int \<lfloor>raw / 24\<rfloor> * 24 \<and> raw - of_int \<lfloor>raw / 24\<rfloor> * 24 < 24"
proof -
  have "of_int \<lfloor>raw / 24\<rfloor> \<le> raw / 24" "raw / 24 < of_int \<lfloor>raw / 24\<rfloor> + 1"
    by linarith+
  then show ?thesis by (simp add: field_simps)
qed

lemma right_ascension_range:
  assumes "time this = Fin t" "x this = Fin a" "y this = Fin b" "z this = Fin c"
  obtains r where "right_ascension this = Fin r" "0 \<le> r" "r \<le> 24"
proof -
  let ?v = "atan2 (c * sin (0.412994 - 4121 / 10 ^ 18 * t) - b * cos (0.412994 - 4121 / 10 ^ 18 * t)) (- a)"
  have "0 \<le> ?v * (12 / pi) + 12 \<and> ?v * (12 / pi) + 12 \<le> 2 * 12"
    by (rule scaled_angle_bounds [OF atan2_bounds]) simp
  with right_ascension_Fin [OF assms] that show thesis by simp
qed

lemma hour_angle_Fin:
  assumes "time this = Fin t" "right_ascension this = Fin r"
  shows "hour_angle this (Fin l) =
     Fin ((6.699851 + 278538308153 / 10 ^ 18 * t + l * (1 / 15) - r)
        - of_int \<lfloor>(6.699851 + 278538308153 / 10 ^ 18 * t + l * (1 / 15) - r) / 24\<rfloor> * 24)"
  using assms by (simp add: hour_angle_def gmst_Fin)

text \<open>
  Claim C4, as amended: for a body with a finite position whose time is at most
  \<open>8.64e15\<close> in absolute value (the range of a \<^verbatim>\<open>Date\<close>) and a longitude of at most 360
  degrees in absolute value, whatever the latitude, \<^verbatim>\<open>transit(lat, lon)\<close> is
  \<open>time - 3590170.4\<cdot>h\<close> where \<open>h\<close> is \<^verbatim>\<open>hour_angle(lon)\<close>, less 24 when it exceeds 12;
  \<open>h\<close> lies in \<open>[-12, 12]\<close>, so the result is about \<open>12\<cdot>3590170.4\<close> milliseconds from
  \<open>time\<close> at most, and less than a day (86400000 milliseconds) from it.
\<close>

theorem transit_within_half_day:
  assumes "js_le (Math_abs (time this)) (Fin 8640000000000000)"
    and "is_finite (x this)" "is_finite (y this)" "is_finite (z this)"
    and "js_le (Math_abs lon) (Fin 360)"
  shows "\<exists>t ha h. time this = Fin t \<and> hour_angle this lon = Fin ha
      \<and> h = (if 12 < ha then ha - 24 else ha) \<and> - 12 \<le> h \<and> h \<le> 12
      \<and> transit this lat lon = Fin (t - 3590170.4 * h)
      \<and> \<bar>(t - 3590170.4 * h) - t\<bar> < 86400000"
proof -
  from assms(1,5) obtain t l where t: "time this = Fin t" and l: "lon = Fin l"
    by (blast dest: js_le_FinD)
  from assms(2-4) obtain a b c where f: "x this = Fin a" "y this = Fin b" "z this = Fin c"
    by (auto elim!: is_finiteE)
  from t f obtain r where r: "right_ascension this = Fin r"
    by (rule right_ascension_range)
  let ?raw = "6.699851 + 278538308153 / 10 ^ 18 * t + l * (1 / 15) - r"
  let ?ha = "?raw - of_int \<lfloor>?raw / 24\<rfloor> * 24"
  let ?h = "if 12 < ?ha then ?ha - 24 else ?ha"
  have ha: "hour_angle this lon = Fin ?ha"
    using hour_angle_Fin [OF t r] l by simp
  have rng: "0 \<le> ?ha \<and> ?ha < 24" by (rule wrap_24)
  then have h: "- 12 \<le> ?h" "?h \<le> 12" by auto
  have tr: "transit this lat lon = Fin (t - 3590170.4 * ?h)"
    using t by (simp add: transit_def ha)
  have "\<bar>3590170.4 * ?h\<bar> = 3590170.4 * \<bar>?h\<bar>" by (simp add: abs_mult)
  also from h have "\<dots> \<le> 3590170.4 * 12" by (intro mult_left_mono) auto
  finally have "\<bar>(t - 3590170.4 * ?h) - t\<bar> < 86400000" by simp
  with t ha h tr show ?thesis by (intro exI [of _ t] exI [of _ ?ha] exI [of _ ?h]) simp
qed

theorem transit_within_half_day_witness:
  "js_le (Math_abs (time on_axis)) (Fin 8640000000000000)
   \<and> is_finite (x on_axis) \<and> is_finite (y on_axis) \<and> is_finite (z on_axis)
   \<and> js_le (Math_abs on_axis_lon) (Fin 360)
   \<and> hour_angle on_axis on_axis_lon = Fin (1 / 100)
   \<and> transit on_axis (Fin 0) on_axis_lon = Fin (- 35901.704)
   \<and> (\<exists>t ha h. time on_axis = Fin t \<and> hour_angle on_axis on_axis_lon = Fin ha
      \<and> h = (if 12 < ha then ha - 24 else ha) \<and> - 12 \<le> h \<and> h \<le> 12
      \<and> transit on_axis (Fin 0) on_axis_lon = Fin (t - 3590170.4 * h)
      \<and> \<bar>(t - 3590170.4 * h) - t\<bar> < 86400000)"
proof -
  have t: "js_le (Math_abs (time on_axis)) (Fin 8640000000000000)" by simp
  have l: "js_le (Math_abs on_axis_lon) (Fin 360)" by (simp add: on_axis_lon_def)
  note transit_within_half_day [OF t on_axis_finite(2-4) l, of "Fin 0"]
  with t l on_axis_finite(2-4) on_axis_hour_angle on_axis_transit [of "Fin 0"]
  show ?thesis by (intro conjI)
qed

section \<open>Longitude and right ascension\<close>

text \<open>
  Claim C6, as amended: for a body with finite time and position, the longitude lies in the
  closed interval \<open>[0, 360]\<close> degrees and the right ascension in the closed interval
  \<open>[0, 24]\<close> hours.
\<close>

theorem angles_in_closed_ranges:
  assumes "is_finite (time this)" "is_finite (x this)" "is_finite (y this)" "is_finite (z this)"
  shows "\<exists>l r. longitude this = Fin l \<and> 0 \<le> l \<and> l \<le> 360
      \<and> right_ascension this = Fin r \<and> 0 \<le> r \<and> r \<le> 24"
proof -
  from assms obtain t a b c where f: "time this = Fin t" "x this = Fin a" "y this = Fin b"
      "z this = Fin c"
    by (auto elim!: is_finiteE)
  from f obtain r where r: "right_ascension this = Fin r" "0 \<le> r" "r \<le> 24"
    by (rule right_ascension_range)
  have "0 \<le> atan2 (- b) (- a) * (180 / pi) + 180 \<and> atan2 (- b) (- a) * (180 / pi) + 180 \<le> 2 * 180"
    by (rule scaled_angle_bounds [OF atan2_bounds]) simp
  with longitude_Fin [OF f(2,3)] r show ?thesis by simp
qed

theorem angles_in_closed_ranges_witness:
  "is_finite (time on_axis) \<and> is_finite (x on_axis) \<and> is_finite (y on_axis)
   \<and> is_finite (z on_axis)
   \<and> (\<exists>l r. longitude on_axis = Fin l \<and> 0 \<le> l \<and> l \<le> 360
      \<and> right_ascension on_axis = Fin r \<and> 0 \<le> r \<and> r \<le> 24)"
  using on_axis_finite(1-4) angles_in_closed_ranges [OF on_axis_finite(1-4)] by (intro conjI)

text \<open>
  The upper ends are reached, so the intervals are not half-open: the body on the positive
  \<open>x\<close> axis has \<open>atan2(+0, -1) = \<pi>\<close>, and its right ascension is 24 hours.
\<close>

theorem right_ascension_reaches_24:
  "x on_axis = Fin 1 \<and> right_ascension on_axis = Fin 24
   \<and> \<not> (\<exists>r. right_ascension on_axis = Fin r \<and> 0 \<le> r \<and> r < 24)"
  by (simp add: on_axis_right_ascension)

section \<open>NaN and the Kepler iteration\<close>

lemma NaN_arith [simp]:
  "NaN + a = NaN" "a + NaN = NaN" "NaN - a = NaN" "a - NaN = NaN"
  "NaN * a = NaN" "a * NaN = NaN" "NaN / a = NaN" "a / NaN = NaN" "- NaN = NaN"
  by (cases a; simp add: plus_number_def minus_number_def times_number_def divide_number_def
      uminus_number_def)+

lemma Math_cos_not_finite: "\<not> is_finite a \<Longrightarrow> Math_cos a = NaN"
  by (cases a) simp_all

lemma kepler_loop_finite:
  assumes "kepler_loop M e E = Some E'"
  shows "is_finite E'"
proof (rule kepler_loop.raw_induct [where P = "\<lambda>M e E E'. is_finite E'", OF _ assms])
  fix loop M e E r
  assume IH: "\<And>M e E r. loop M e E = Some r \<Longrightarrow> is_finite r"
    and run: "(let dM = M - (E - e * Math_sin E);
          dE = dM / (Fin 1 - e * Math_cos E);
          E' = E + dE
      in if js_le (Math_abs dE) (Fin (1 / 10 ^ 8)) then Some E' else loop M e E') = Some r"
  let ?dE = "(M - (E - e * Math_sin E)) / (Fin 1 - e * Math_cos E)"
  show "is_finite r"
  proof (cases "js_le (Math_abs ?dE) (Fin (1 / 10 ^ 8))")
    case True
    then obtain d where d: "?dE = Fin d" by (auto dest: js_le_FinD)
    have "is_finite E"
    proof (rule ccontr)
      assume "\<not> is_finite E"
      then have "?dE = NaN" by (simp add: Math_cos_not_finite)
      with d show False by simp
    qed
    then obtain v where "E = Fin v" by (rule is_finiteE)
    moreover from True run have "r = E + ?dE" by (simp add: Let_def)
    ultimately show ?thesis using d by simp
  next
    case False
    with run have "loop M e (E + ?dE) = Some r" by (simp add: Let_def)
    then show ?thesis by (rule IH)
  qed
qed

lemma kepler_loop_fixed:
  assumes "sin m = 0" "e * cos m \<noteq> 1"
  shows "kepler_loop (Fin m) (Fin e) (Fin m + Fin e * Math_sin (Fin m)) = Some (Fin m)"
  using assms by (subst kepler_loop.simps) (simp add: Let_def)

lemma Planet_setTime_Fin:
  assumes "kepler_loop (Fin (ml - lp)) (Fin e) (Fin (ml - lp) + Fin e * Math_sin (Fin (ml - lp)))
      = Some (Fin E)"
    and "e * e \<le> 1"
  shows "Planet_setTime this (Fin t) (Fin a) (Fin e) (Fin i) (Fin ml) (Fin lp) (Fin an) =
     Some (this\<lparr>time := Fin t,
       x := Fin (a * (cos E - e) * (cos (lp - an) * cos an - sin (lp - an) * sin an * cos i)
              + a * sqrt (1 - e * e) * sin E
                * (- sin (lp - an) * cos an - cos (lp - an) * sin an * cos i)),
       y := Fin (a * (cos E - e) * (cos (lp - an) * sin an + sin (lp - an) * cos an * cos i)
              + a * sqrt (1 - e * e) * sin E
                * (- sin (lp - an) * sin an + cos (lp - an) * cos an * cos i)),
       z := Fin (a * (cos E - e) * (sin (lp - an) * sin i)
              + a * sqrt (1 - e * e) * sin E * (cos (lp - an) * sin i))\<rparr>)"
  using assms by (simp add: Planet_setTime_def Let_def)

section \<open>The Sun\<close>

lemma abs_le_1_square: "\<bar>e\<bar> \<le> 1 \<Longrightarrow> e * e \<le> (1 :: real)"
  using abs_square_le_1 [of e] by (simp add: power2_eq_square)

lemma Sun_setTime_unfold:
  "Sun_setTime this (Fin t) =
     Planet_setTime this (Fin t) (Fin sun_a) (Fin (sun_e t)) (Fin 0) (Fin (sun_ml t))
       (Fin (sun_lp t)) (Fin 0)"
  by (simp add: Sun_setTime_def sun_a_def sun_e_def sun_ml_def sun_lp_def)

lemma Sun_setTime_fields:
  assumes "Sun_setTime this (Fin t) = Some sun" and "\<bar>sun_e t\<bar> \<le> 1"
  obtains E where "time sun = Fin t"
    and "x sun = Fin (sun_a * (cos E - sun_e t) * cos (sun_lp t)
            - sun_a * sqrt (1 - sun_e t * sun_e t) * sin E * sin (sun_lp t))"
    and "y sun = Fin (sun_a * (cos E - sun_e t) * sin (sun_lp t)
            + sun_a * sqrt (1 - sun_e t * sun_e t) * sin E * cos (sun_lp t))"
    and "z sun = Fin 0"
proof -
  let ?M = "Fin (sun_ml t - sun_lp t)"
  let ?k = "kepler_loop ?M (Fin (sun_e t)) (?M + Fin (sun_e t) * Math_sin ?M)"
  from assms(1) have run: "Planet_setTime this (Fin t) (Fin sun_a) (Fin (sun_e t)) (Fin 0)
      (Fin (sun_ml t)) (Fin (sun_lp t)) (Fin 0) = Some sun"
    by (simp add: Sun_setTime_unfold)
  then obtain E' where k: "?k = Some E'"
    by (cases ?k) (simp_all add: Planet_setTime_def Let_def)
  then have "is_finite E'" by (rule kepler_loop_finite)
  then obtain E where "E' = Fin E" by (rule is_finiteE)
  with k have k': "?k = Some (Fin E)" by simp
  from assms(2) have "sun_e t * sun_e t \<le> 1"
    by (rule abs_le_1_square)
  from Planet_setTime_Fin [OF k' this, where this = this and t = t and a = sun_a and i = 0
      and an = 0] run
  have "sun = this\<lparr>time := Fin t,
       x := Fin (sun_a * (cos E - sun_e t) * cos (sun_lp t)
            - sun_a * sqrt (1 - sun_e t * sun_e t) * sin E * sin (sun_lp t)),
       y := Fin (sun_a * (cos E - sun_e t) * sin (sun_lp t)
            + sun_a * sqrt (1 - sun_e t * sun_e t) * sin E * cos (sun_lp t)),
       z := Fin 0\<rparr>"
    by simp
  then have "time sun = Fin t"
    "x sun = Fin (sun_a * (cos E - sun_e t) * cos (sun_lp t)
            - sun_a * sqrt (1 - sun_e t * sun_e t) * sin E * sin (sun_lp t))"
    "y sun = Fin (sun_a * (cos E - sun_e t) * sin (sun_lp t)
            + sun_a * sqrt (1 - sun_e t * sun_e t) * sin E * cos (sun_lp t))"
    "z sun = Fin 0"
    by simp_all
  then show thesis by (rule that)
qed

lemma orbit_radius:
  fixes a e E w :: real
  assumes "\<bar>e\<bar> \<le> 1"
  shows "(a * (cos E - e) * cos w - a * sqrt (1 - e * e) * sin E * sin w)
       * (a * (cos E - e) * cos w - a * sqrt (1 - e * e) * sin E * sin w)
     + (a * (cos E - e) * sin w + a * sqrt (1 - e * e) * sin E * cos w)
       * (a * (cos E - e) * sin w + a * sqrt (1 - e * e) * sin E * cos w)
     = (a * (1 - e * cos E)) * (a * (1 - e * cos E))"
proof -
  define u where "u = a * (cos E - e)"
  define v where "v = a * sqrt (1 - e * e) * sin E"
  from assms have "e * e \<le> 1"
    by (rule abs_le_1_square)
  then have s: "sqrt (1 - e * e) * sqrt (1 - e * e) = 1 - e * e" by simp
  have w: "sin w * sin w + cos w * cos w = 1"
    using sin_cos_squared_add [of w] by (simp add: power2_eq_square)
  have E: "sin E * sin E = 1 - cos E * cos E"
    using sin_cos_squared_add [of E] by (simp add: power2_eq_square)
  have "(u * cos w - v * sin w) * (u * cos w - v * sin w)
      + (u * sin w + v * cos w) * (u * sin w + v * cos w)
      = (u * u + v * v) * (sin w * sin w + cos w * cos w)"
    by algebra
  also have "\<dots> = u * u + v * v" by (simp add: w)
  also have "v * v = a * a * (sqrt (1 - e * e) * sqrt (1 - e * e)) * (sin E * sin E)"
    by (simp add: v_def algebra_simps)
  also have "\<dots> = a * a * (1 - e * e) * (1 - cos E * cos E)" by (simp only: s E)
  finally show ?thesis by (simp add: u_def v_def algebra_simps)
qed

lemma Planet_setTime_time:
  "Planet_setTime this t a e i ml lp an = Some p \<Longrightarrow> time p = t"
  by (auto simp add: Planet_setTime_def Let_def split: option.splits)

lemma riseset_at_Suc_setTime:
  "riseset_at setTime sl cl sh la lo di (Suc k) b = Some b' \<Longrightarrow> \<exists>c t. setTime c t = Some b'"
proof (induction k arbitrary: b)
  case 0
  then show ?case by (auto split: outcome.splits option.splits)
next
  case (Suc k)
  from Suc.prems obtain t c where "setTime b t = Some c"
    and "riseset_at setTime sl cl sh la lo di (Suc k) c = Some b'"
    by (auto split: outcome.splits option.splits)
  then show ?case using Suc.IH by blast
qed

lemma Sun_distance:
  assumes "Sun_setTime this (Fin t) = Some sun" and "\<bar>sun_e t\<bar> < 1"
  obtains d where "distance sun = Fin d" "0 < d"
proof -
  from assms(2) have le: "\<bar>sun_e t\<bar> \<le> 1" by simp
  from Sun_setTime_fields [OF assms(1) le] obtain E where
    f: "x sun = Fin (sun_a * (cos E - sun_e t) * cos (sun_lp t)
            - sun_a * sqrt (1 - sun_e t * sun_e t) * sin E * sin (sun_lp t))"
    "y sun = Fin (sun_a * (cos E - sun_e t) * sin (sun_lp t)
            + sun_a * sqrt (1 - sun_e t * sun_e t) * sin E * cos (sun_lp t))"
    "z sun = Fin 0"
    by blast
  let ?r = "sun_a * (1 - sun_e t * cos E)"
  have "\<bar>sun_e t * cos E\<bar> \<le> \<bar>sun_e t\<bar> * 1"
    unfolding abs_mult by (intro mult_left_mono) auto
  with assms(2) have "sun_e t * cos E < 1" by linarith
  then have pos: "0 < ?r" by (simp add: sun_a_def)
  have "distance sun = Math_sqrt (Fin (?r * ?r + 0 * 0))"
    unfolding distance_def f by (simp only: Fin_times Fin_plus orbit_radius [OF le])
  also have "\<dots> = Math_sqrt (Fin (?r * ?r))" by simp
  also have "\<dots> = Fin \<bar>?r\<bar>" by (simp only: Math_sqrt.simps real_sqrt_abs2 zero_le_square if_True)
  finally have "distance sun = Fin ?r" using pos by simp
  then show thesis using pos by (rule that)
qed

lemma Sun_z_latitude:
  assumes "Sun_setTime this (Fin t) = Some sun" and "\<bar>sun_e t\<bar> < 1"
  shows "z sun = Fin 0 \<and> latitude sun = Fin 0"
proof -
  from assms(2) have le: "\<bar>sun_e t\<bar> \<le> 1" by simp
  from Sun_setTime_fields [OF assms(1) le] have z: "z sun = Fin 0" by blast
  from Sun_distance [OF assms] obtain d where "distance sun = Fin d" "0 < d" by blast
  with z show ?thesis by (simp add: latitude_def Math_PI_def)
qed

lemma sun_M: "sun_ml t - sun_lp t = 199096875 / 10 ^ 18 * t - 0.03814"
  by (simp add: sun_ml_def sun_lp_def)

lemma perihelion_M: "sun_ml perihelion - sun_lp perihelion = 0"
  unfolding sun_M by (simp add: perihelion_def)

lemma far_past_M: "sun_ml far_past - sun_lp far_past = - (8000000 * pi)"
  unfolding sun_M by (simp add: far_past_def field_simps)

lemma perihelion_e: "\<bar>sun_e perihelion\<bar> < 1"
  by (simp add: sun_e_def perihelion_def)

lemma far_past_e: "1 < sun_e far_past"
proof -
  have "sun_e far_past = 0.016721 + 13 * (8000000 * pi - 0.03814) / 199096875"
    by (simp add: sun_e_def far_past_def field_simps)
  also have "\<dots> \<ge> 0.016721 + 13 * (8000000 * 2 - 0.03814) / 199096875"
    using pi_ge_two by simp
  finally show ?thesis by simp
qed

lemma Sun_perihelion_returns: "\<exists>sun. Sun_setTime this (Fin perihelion) = Some sun"
proof -
  from perihelion_e have le: "sun_e perihelion * sun_e perihelion \<le> 1"
    by (intro abs_le_1_square) simp
  from perihelion_e have "sun_e perihelion * cos 0 \<noteq> 1" by auto
  with kepler_loop_fixed [of 0 "sun_e perihelion"]
  have "kepler_loop (Fin (sun_ml perihelion - sun_lp perihelion)) (Fin (sun_e perihelion))
      (Fin (sun_ml perihelion - sun_lp perihelion)
        + Fin (sun_e perihelion) * Math_sin (Fin (sun_ml perihelion - sun_lp perihelion)))
      = Some (Fin 0)"
    by (simp add: perihelion_M)
  from Planet_setTime_Fin [OF this le] show ?thesis
    unfolding Sun_setTime_unfold by blast
qed

lemma Sun_far_past:
  "Sun_setTime on_axis (Fin far_past)
     = Some (on_axis\<lparr>time := Fin far_past, x := NaN, y := NaN, z := NaN\<rparr>)"
proof -
  let ?e = "sun_e far_past"
  let ?M = "Fin (sun_ml far_past - sun_lp far_past)"
  have sq: "1 < ?e * ?e" using far_past_e by (simp add: less_1_mult)
  have "sin (- (8000000 * pi)) = 0" by simp
  moreover have c: "cos (- (8000000 * pi)) = 1" by simp
  moreover from far_past_e c have "?e * cos (- (8000000 * pi)) \<noteq> 1" by simp
  ultimately have k: "kepler_loop ?M (Fin ?e) (?M + Fin ?e * Math_sin ?M) = Some ?M"
    unfolding far_past_M by (intro kepler_loop_fixed)
  have "Math_sqrt (Fin 1 - Fin ?e * Fin ?e) = NaN" using sq by simp
  with k show ?thesis
    unfolding Sun_setTime_unfold by (simp add: Planet_setTime_def Let_def)
qed

lemma transit_NaN_position:
  assumes "z this = NaN"
  shows "transit this lat lon = NaN"
proof -
  have "right_ascension this = NaN"
    using assms by (simp add: right_ascension_def Let_def)
  then have "hour_angle this lon = NaN"
    by (simp add: hour_angle_def Let_def)
  then show ?thesis by (simp add: transit_def Let_def)
qed

text \<open>
  Claim C10, as amended: at every time at which \<^verbatim>\<open>Sun.setTime\<close> returns and the
  eccentricity \<open>0.016721 - 13e-18\<cdot>time\<close> is less than 1 in absolute value, the \<open>z\<close> it
  computes is exactly 0 and the latitude getter returns exactly 0. This holds for the
  state the constructor leaves and for every state that the time-stepping of the solver
  produces (each is the result of a \<^verbatim>\<open>setTime\<close>); the solver then puts back the
  fields it found at entry.
\<close>

theorem Sun_latitude_zero:
  assumes "Sun_setTime this T = Some sun
      \<or> riseset_at Sun_setTime sin_lat cos_lat sin_h0 lat lon direction (Suc k) sun0 = Some sun"
    and "time sun = Fin t" and "\<bar>0.016721 - 13 / 10 ^ 18 * t\<bar> < 1"
  shows "z sun = Fin 0 \<and> latitude sun = Fin 0"
proof -
  from assms(1) obtain c T' where s: "Sun_setTime c T' = Some sun"
    by (blast dest: riseset_at_Suc_setTime)
  then have "time sun = T'" unfolding Sun_setTime_def by (rule Planet_setTime_time)
  with assms(2) s have "Sun_setTime c (Fin t) = Some sun" by simp
  moreover from assms(3) have "\<bar>sun_e t\<bar> < 1" by (simp add: sun_e_def)
  ultimately show ?thesis by (rule Sun_z_latitude)
qed

theorem Sun_latitude_zero_witness:
  "\<exists>sun. Sun_setTime on_axis (Fin perihelion) = Some sun \<and> time sun = Fin perihelion
     \<and> \<bar>0.016721 - 13 / 10 ^ 18 * perihelion\<bar> < 1 \<and> z sun = Fin 0 \<and> latitude sun = Fin 0"
proof -
  from Sun_perihelion_returns obtain sun where s: "Sun_setTime on_axis (Fin perihelion) = Some sun"
    by blast
  then have t: "time sun = Fin perihelion" unfolding Sun_setTime_def by (rule Planet_setTime_time)
  have e: "\<bar>0.016721 - 13 / 10 ^ 18 * perihelion\<bar> < 1"
    using perihelion_e by (simp add: sun_e_def)
  note Sun_latitude_zero [OF disjI1 t e, OF s]
  with s t e show ?thesis by blast
qed

text \<open>
  For every finite time, as the claim is written, it fails: once the eccentricity formula
  exceeds 1, \<open>sqrt(1 - e\<cdot>e)\<close> is \<open>NaN\<close> and so are \<open>v\<close>, \<open>z\<close> and the latitude.
\<close>

theorem Sun_far_past_z_NaN:
  "\<exists>sun. Sun_setTime on_axis (Fin far_past) = Some sun \<and> time sun = Fin far_past
     \<and> z sun = NaN \<and> latitude sun = NaN"
  unfolding Sun_far_past by (simp add: latitude_def)

text \<open>
  Claim C4 as it is written asks only for a finite time. The Sun of the far past has a finite
  time and a position that is \<open>NaN\<close>, so its right ascension, its hour angle and its transit
  are \<open>NaN\<close> at every longitude. For the longitude \<open>Infinity\<close> the hour angle is
  \<open>Infinity - Infinity\<close>, and the transit of the body on the axis is \<open>NaN\<close> as well. In both
  cases the result is not within \<open>12\<cdot>3590170.4\<close> of the time of the body.
\<close>

theorem transit_NaN:
  "(\<exists>sun. Sun_setTime on_axis (Fin far_past) = Some sun \<and> time sun = Fin far_past
        \<and> transit sun (Fin 0) (Fin 0) = NaN
        \<and> \<not> js_le (Math_abs (transit sun (Fin 0) (Fin 0) - time sun)) (Fin (12 * 3590170.4)))
   \<and> transit on_axis (Fin 0) PInf = NaN
   \<and> \<not> js_le (Math_abs (transit on_axis (Fin 0) PInf - time on_axis)) (Fin (12 * 3590170.4))"
proof -
  have "hour_angle on_axis PInf = NaN"
    by (simp add: hour_angle_def on_axis_right_ascension gmst_Fin plus_number_def
        minus_number_def times_number_def divide_number_def)
  then have a: "transit on_axis (Fin 0) PInf = NaN"
    by (simp add: transit_def minus_number_def times_number_def)
  let ?sun = "on_axis\<lparr>time := Fin far_past, x := NaN, y := NaN, z := NaN\<rparr>"
  have b: "transit ?sun (Fin 0) (Fin 0) = NaN"
    by (rule transit_NaN_position) simp
  from a b show ?thesis unfolding Sun_far_past by simp
qed

section \<open>Distance and declination\<close>

lemma sin_cos_products: "sin v * sin v + cos v * cos v = (1 :: real)"
  using sin_cos_squared_add [of v] by (simp add: power2_eq_square)

lemma projection_le_norm:
  fixes a b c s k :: real
  assumes "s * s + k * k = 1"
  shows "\<bar>b * s + c * k\<bar> \<le> sqrt (a * a + b * b + c * c)"
proof -
  have "(b * s + c * k)\<^sup>2 + (b * k - c * s)\<^sup>2 = (b * b + c * c) * (s * s + k * k)"
    by algebra
  then have "(b * s + c * k)\<^sup>2 + (b * k - c * s)\<^sup>2 = b * b + c * c"
    by (simp add: assms)
  moreover have "0 \<le> (b * k - c * s)\<^sup>2" "0 \<le> a * a" by simp_all
  ultimately have "(b * s + c * k)\<^sup>2 \<le> a * a + b * b + c * c" by linarith
  then have "sqrt ((b * s + c * k)\<^sup>2) \<le> sqrt (a * a + b * b + c * c)"
    by (rule real_sqrt_le_mono)
  then show ?thesis by simp
qed

lemma distance_Fin:
  assumes "x this = Fin a" "y this = Fin b" "z this = Fin c"
  shows "distance this = Fin (sqrt (a * a + b * b + c * c))"
proof -
  have "0 \<le> a * a + b * b + c * c" by (intro add_nonneg_nonneg) simp_all
  with assms show ?thesis by (simp add: distance_def)
qed

lemma declination_Fin:
  assumes "time this = Fin t" "x this = Fin a" "y this = Fin b" "z this = Fin c"
    and "a \<noteq> 0 \<or> b \<noteq> 0 \<or> c \<noteq> 0"
  obtains q where "declination this = Fin (arcsin q * (180 / pi))" "\<bar>q\<bar> \<le> 1"
proof -
  let ?d = "sqrt (a * a + b * b + c * c)"
  let ?s = "sin (0.412994 - 4121 / 10 ^ 18 * t)"
  let ?k = "cos (0.412994 - 4121 / 10 ^ 18 * t)"
  let ?q = "(b * ?s + c * ?k) / ?d"
  have "0 < a * a + b * b + c * c"
  proof -
    have n: "0 \<le> a * a" "0 \<le> b * b" "0 \<le> c * c" by simp_all
    from assms(5) have "0 < a * a \<or> 0 < b * b \<or> 0 < c * c"
      using zero_less_power2 [of a] zero_less_power2 [of b] zero_less_power2 [of c]
      by (simp add: power2_eq_square)
    with n show ?thesis by linarith
  qed
  then have d: "0 < ?d" by simp
  have "\<bar>b * ?s + c * ?k\<bar> \<le> ?d"
    by (rule projection_le_norm) (rule sin_cos_products)
  with d have q: "\<bar>?q\<bar> \<le> 1" by simp
  have "declination this = Math_asin (Fin ?q) * (Fin 180 / Math_PI)"
    using d assms(1,3,4)
    by (simp add: declination_def Let_def obliquity_Fin distance_Fin [OF assms(2-4)])
  also have "\<dots> = Fin (arcsin ?q * (180 / pi))"
    using q by (simp add: Math_PI_def)
  finally show thesis using q by (rule that)
qed

section \<open>What the solver returns\<close>

lemma riseset_at_continues:
  "riseset_at setTime sl cl sh la lo di k b = Some bk \<Longrightarrow>
   riseset_loop setTime sv sl cl sh la lo di b = riseset_loop setTime sv sl cl sh la lo di bk"
proof (induction k arbitrary: b)
  case 0
  then show ?case by simp
next
  case (Suc k)
  from Suc.prems obtain t c where b: "riseset_body sl cl sh la lo di b = Again t"
    and c: "setTime b t = Some c" and k: "riseset_at setTime sl cl sh la lo di k c = Some bk"
    by (auto split: outcome.splits option.splits)
  from b c have "riseset_loop setTime sv sl cl sh la lo di b = riseset_loop setTime sv sl cl sh la lo di c"
    by (subst riseset_loop.simps) simp
  with Suc.IH [OF k] show ?case by simp
qed

lemma riseset_loop_at:
  assumes "riseset_at setTime sl cl sh la lo di k this = Some b"
  shows "riseset_loop setTime this sl cl sh la lo di this =
     (case riseset_body sl cl sh la lo di b of
        Bail \<Rightarrow> Some (NaN, this)
      | Again t \<Rightarrow>
          (case setTime b t of
             None \<Rightarrow> None
           | Some b' \<Rightarrow> riseset_loop setTime this sl cl sh la lo di b')
      | Found t \<Rightarrow> Some (t, this))"
proof -
  have "riseset_loop setTime this sl cl sh la lo di this
      = riseset_loop setTime this sl cl sh la lo di b"
    using assms by (rule riseset_at_continues)
  also have "\<dots> = (case riseset_body sl cl sh la lo di b of
        Bail \<Rightarrow> Some (NaN, this)
      | Again t \<Rightarrow>
          (case setTime b t of
             None \<Rightarrow> None
           | Some b' \<Rightarrow> riseset_loop setTime this sl cl sh la lo di b')
      | Found t \<Rightarrow> Some (t, this))"
    by (subst riseset_loop.simps) (simp add: restore_saved split: outcome.splits)
  finally show ?thesis .
qed

lemma riseset_body_cases:
  "riseset_body sl cl sh la lo di b =
     (if js_gt (Math_abs (riseset_cos_lha sl cl sh b)) (Fin 1) then Bail
      else if js_ge (Math_abs (riseset_candidate sl cl sh la lo di b - time b)) (Fin 60000)
        then Again (riseset_candidate sl cl sh la lo di b)
        else Found (riseset_candidate sl cl sh la lo di b))"
  by (simp add: riseset_body_def Let_def)

lemma transit_finite:
  assumes "is_finite (time this)" "is_finite (x this)" "is_finite (y this)" "is_finite (z this)"
    and "is_finite lon"
  shows "is_finite (transit this lat lon)"
proof -
  from assms obtain t a b c l where f: "time this = Fin t" "x this = Fin a" "y this = Fin b"
      "z this = Fin c" and l: "lon = Fin l"
    by (auto elim!: is_finiteE)
  from f obtain r where r: "right_ascension this = Fin r"
    by (rule right_ascension_range)
  from hour_angle_Fin [OF f(1) r, of l] l obtain h where "hour_angle this lon = Fin h"
    by blast
  with f(1) show ?thesis by (simp add: transit_def Let_def)
qed

lemma candidate_NaN_iff:
  assumes "is_finite (transit this lat lon)" "is_finite direction"
    and "\<not> js_gt (Math_abs (riseset_cos_lha sl cl sh this)) (Fin 1)"
  shows "(riseset_candidate sl cl sh lat lon direction this = NaN
         \<longleftrightarrow> riseset_cos_lha sl cl sh this = NaN)
       \<and> (riseset_candidate sl cl sh lat lon direction this \<noteq> NaN
         \<longrightarrow> is_finite (riseset_candidate sl cl sh lat lon direction this))"
proof -
  from assms(1,2) obtain v d where "transit this lat lon = Fin v" "direction = Fin d"
    by (auto elim!: is_finiteE)
  with assms(3) show ?thesis
    by (cases "riseset_cos_lha sl cl sh this") (simp_all add: riseset_candidate_def)
qed

lemma riseset_NaN_latitude_body:
  "riseset_body NaN NaN sh la lo di b = Found NaN"
proof -
  have "riseset_cos_lha NaN NaN sh b = NaN" by (simp add: riseset_cos_lha_def Let_def)
  then show ?thesis by (simp add: riseset_body_cases riseset_candidate_def js_ge_def)
qed

lemma riseset_NaN_position_body:
  assumes "y b = NaN"
  shows "riseset_cos_lha sl cl sh b = NaN" "riseset_body sl cl sh la lo di b = Found NaN"
proof -
  have "declination b = NaN"
    using assms by (simp add: declination_def Let_def)
  then show c: "riseset_cos_lha sl cl sh b = NaN"
    by (simp add: riseset_cos_lha_def Let_def)
  then show "riseset_body sl cl sh la lo di b = Found NaN"
    by (simp add: riseset_body_cases riseset_candidate_def js_ge_def)
qed

section \<open>Two runs of the solver through the perihelion\<close>

text \<open>
  Both runs start from a body whose fields were set by hand, take one evaluation of the
  loop to reach a candidate that is exactly the perihelion, call \<^verbatim>\<open>setTime\<close> there, and
  leave the loop at the next evaluation: the first with the threshold of 90 degrees, which
  the Sun at the perihelion does not reach on the equator (\<open>|cos_lha| > 1\<close>), the second
  with the threshold 0, where the candidate of the second evaluation is a quarter of a
  millisecond from the perihelion.
\<close>

lemma Sun_at_perihelion:
  "Sun_setTime this (Fin perihelion) = Some sun_at_perihelion"
proof -
  from perihelion_e have le: "sun_e perihelion * sun_e perihelion \<le> 1"
    by (intro abs_le_1_square) simp
  from perihelion_e have "sun_e perihelion * cos 0 \<noteq> 1" by auto
  with kepler_loop_fixed [of 0 "sun_e perihelion"]
  have "kepler_loop (Fin (sun_ml perihelion - sun_lp perihelion)) (Fin (sun_e perihelion))
      (Fin (sun_ml perihelion - sun_lp perihelion)
        + Fin (sun_e perihelion) * Math_sin (Fin (sun_ml perihelion - sun_lp perihelion)))
      = Some (Fin 0)"
    by (simp add: perihelion_M)
  from Planet_setTime_Fin [OF this le, where this = this and t = perihelion and a = sun_a
      and i = 0 and an = 0]
  show ?thesis
    unfolding Sun_setTime_unfold by (simp add: sun_at_perihelion_def)
qed

lemma in_plane_declination:
  assumes "time this = Fin t" "x this = Fin a" "y this = Fin b" "z this = Fin 0"
    and "b \<noteq> 0" and "cos (0.412994 - 4121 / 10 ^ 18 * t) \<noteq> 0"
  obtains q where "declination this = Fin (arcsin q * (180 / pi))" "\<bar>q\<bar> < 1"
    "sin (0.412994 - 4121 / 10 ^ 18 * t) \<noteq> 0 \<longrightarrow> q \<noteq> 0"
proof -
  define s where "s = sin (0.412994 - 4121 / 10 ^ 18 * t)"
  define k where "k = cos (0.412994 - 4121 / 10 ^ 18 * t)"
  define d where "d = sqrt (a * a + b * b + 0 * 0)"
  define q where "q = b * s / d"
  have dist: "distance this = Fin d"
    unfolding d_def by (rule distance_Fin [OF assms(2-4)])
  from assms(5) have "0 < b * b" using zero_less_power2 [of b] by (simp add: power2_eq_square)
  moreover have "0 \<le> a * a" by simp
  ultimately have pos: "0 < a * a + b * b + 0 * 0" by (simp add: add_nonneg_pos)
  then have d: "0 < d" unfolding d_def by (simp only: real_sqrt_gt_zero)
  have "\<bar>b\<bar> = sqrt (b * b)" by simp
  also have "\<dots> \<le> d" unfolding d_def by (rule real_sqrt_le_mono) simp
  finally have bd: "\<bar>b\<bar> \<le> d" .
  have "s * s + k * k = 1" unfolding s_def k_def by (rule sin_cos_products)
  moreover from assms(6) have "0 < k * k"
    using zero_less_power2 [of k] by (simp add: power2_eq_square k_def)
  ultimately have "s * s < 1" by linarith
  then have s1: "\<bar>s\<bar> < 1" using abs_square_less_1 [of s] by (simp add: power2_eq_square)
  have "\<bar>q\<bar> = \<bar>b\<bar> * \<bar>s\<bar> / d" using d by (simp add: q_def abs_mult)
  also have "\<dots> \<le> d * \<bar>s\<bar> / d"
    using bd d by (intro divide_right_mono mult_right_mono) simp_all
  also have "\<dots> = \<bar>s\<bar>" using d by simp
  finally have q1: "\<bar>q\<bar> < 1" using s1 by linarith
  have "declination this = Math_asin (Fin q) * (Fin 180 / Math_PI)"
    using d assms(1,3,4)
    by (simp add: declination_def Let_def obliquity_Fin dist q_def s_def)
  also have "\<dots> = Fin (arcsin q * (180 / pi))"
    using q1 by (simp add: Math_PI_def)
  finally have dec: "declination this = Fin (arcsin q * (180 / pi))" .
  have nz: "sin (0.412994 - 4121 / 10 ^ 18 * t) \<noteq> 0 \<longrightarrow> q \<noteq> 0"
    using assms(5) d by (simp add: q_def s_def)
  show thesis by (rule that [OF dec q1 nz])
qed

lemma equator_cos_lha:
  assumes "time this = Fin t" "x this = Fin a" "y this = Fin b" "z this = Fin 0"
    and "b \<noteq> 0" and "cos (0.412994 - 4121 / 10 ^ 18 * t) \<noteq> 0"
  obtains c where "riseset_cos_lha (Fin 0) (Fin 1) (Fin s) this = Fin (s / c)" "0 < c" "c \<le> 1"
    "sin (0.412994 - 4121 / 10 ^ 18 * t) \<noteq> 0 \<longrightarrow> c < 1"
proof -
  from assms obtain q where dec: "declination this = Fin (arcsin q * (180 / pi))"
    and q: "\<bar>q\<bar> < 1"
    and nz: "sin (0.412994 - 4121 / 10 ^ 18 * t) \<noteq> 0 \<longrightarrow> q \<noteq> 0"
    by (rule in_plane_declination)
  define c where "c = cos (arcsin q)"
  from q have c: "c = sqrt (1 - q\<^sup>2)" unfolding c_def by (intro cos_arcsin) simp_all
  from q have "q\<^sup>2 < 1" using abs_square_less_1 [of q] by simp
  then have pos: "0 < c" by (simp add: c)
  have le: "c \<le> 1" by (simp add: c_def)
  have lt: "sin (0.412994 - 4121 / 10 ^ 18 * t) \<noteq> 0 \<longrightarrow> c < 1"
  proof
    assume "sin (0.412994 - 4121 / 10 ^ 18 * t) \<noteq> 0"
    with nz have "0 < q\<^sup>2" by simp
    then have "1 - q\<^sup>2 < 1" by simp
    then have "sqrt (1 - q\<^sup>2) < sqrt 1" by (rule real_sqrt_less_mono)
    then show "c < 1" by (simp add: c)
  qed
  have "arcsin q * (180 / pi) * (pi / 180) = arcsin q" by simp
  then have "riseset_cos_lha (Fin 0) (Fin 1) (Fin s) this = Fin (s / c)"
    using pos by (simp add: riseset_cos_lha_def Let_def dec Math_PI_def c_def)
  then show thesis using pos le lt by (rule that)
qed

lemma perihelion_bounds: "191000000 < perihelion" "perihelion < 192000000"
  by (simp_all add: perihelion_def)

lemma perihelion_obliquity:
  "0 < sin (0.412994 - 4121 / 10 ^ 18 * perihelion)"
  "0 < cos (0.412994 - 4121 / 10 ^ 18 * perihelion)"
proof -
  let ?o = "0.412994 - 4121 / 10 ^ 18 * perihelion"
  from perihelion_bounds have o: "0 < ?o" "?o < 1" by simp_all
  from o pi_ge_two show "0 < sin ?o" by (intro sin_gt_zero) simp_all
  from o pi_ge_two show "0 < cos ?o" by (intro cos_gt_zero) simp_all
qed

lemma perihelion_sin_lp: "sin (sun_lp perihelion) < 0"
proof -
  from perihelion_bounds have "4 < sun_lp perihelion" "sun_lp perihelion < 6"
    by (simp_all add: sun_lp_def)
  with pi_less_4 pi_ge_3 show ?thesis by (intro sin_lt_zero) simp_all
qed

lemma sun_at_perihelion_fields:
  "time sun_at_perihelion = Fin perihelion"
  "x sun_at_perihelion = Fin (sun_a * (1 - sun_e perihelion) * cos (sun_lp perihelion))"
  "y sun_at_perihelion = Fin (sun_a * (1 - sun_e perihelion) * sin (sun_lp perihelion))"
  "z sun_at_perihelion = Fin 0"
  by (simp_all add: sun_at_perihelion_def)

lemma sun_at_perihelion_y: "sun_a * (1 - sun_e perihelion) * sin (sun_lp perihelion) \<noteq> 0"
proof -
  from perihelion_e have "0 < 1 - sun_e perihelion" by simp
  moreover have "0 < sun_a" by (simp add: sun_a_def)
  ultimately show ?thesis using perihelion_sin_lp by simp
qed

lemma hour_before_fields:
  "time hour_before = Fin (perihelion + 3590170.4)" "x hour_before = Fin 1"
  "y hour_before = Fin 0" "z hour_before = Fin 0"
  by (simp_all add: hour_before_def)

lemma hour_before_cos_lha: "riseset_cos_lha (Fin 0) (Fin 1) (Fin 1) hour_before = Fin 1"
proof -
  have "distance hour_before = Fin 1" by (simp add: distance_def hour_before_fields)
  then have "declination hour_before = Fin 0"
    by (simp add: declination_def hour_before_fields obliquity_Fin Math_PI_def)
  then show ?thesis by (simp add: riseset_cos_lha_def Math_PI_def)
qed

lemma hour_before_hour_angle: "hour_angle hour_before hour_before_lon = Fin 1"
proof -
  define g :: real where "g = 6.699851 + 278538308153 / 10 ^ 18 * (perihelion + 3590170.4)"
  have ra: "right_ascension hour_before = Fin 24"
    by (simp add: right_ascension_Fin [OF hour_before_fields] atan2_def)
  have raw: "g + 15 * (73 - g) * (1 / 15) - 24 = 49" by (simp add: field_simps)
  have "hour_angle hour_before (Fin (15 * (73 - g)))
      = Fin ((g + 15 * (73 - g) * (1 / 15) - 24)
          - of_int \<lfloor>(g + 15 * (73 - g) * (1 / 15) - 24) / 24\<rfloor> * 24)"
    unfolding g_def by (rule hour_angle_Fin [OF hour_before_fields(1) ra])
  also have "\<dots> = Fin 1" unfolding raw by simp
  finally show ?thesis unfolding g_def hour_before_lon_def .
qed

lemma hour_before_body:
  "riseset_body (Fin 0) (Fin 1) (Fin 1) lat hour_before_lon (Fin (- 1)) hour_before
     = Again (Fin perihelion)"
proof -
  have "transit hour_before lat hour_before_lon = Fin perihelion"
    by (simp add: transit_def hour_before_hour_angle hour_before_fields)
  then have "riseset_candidate (Fin 0) (Fin 1) (Fin 1) lat hour_before_lon (Fin (- 1)) hour_before
      = Fin perihelion"
    by (simp add: riseset_candidate_def hour_before_cos_lha)
  then show ?thesis
    by (simp add: riseset_body_cases hour_before_cos_lha hour_before_fields js_ge_def)
qed

lemma sun_at_perihelion_above_one:
  "js_gt (Math_abs (riseset_cos_lha (Fin 0) (Fin 1) (Fin 1) sun_at_perihelion)) (Fin 1)"
proof -
  from perihelion_obliquity have "cos (0.412994 - 4121 / 10 ^ 18 * perihelion) \<noteq> 0"
    "sin (0.412994 - 4121 / 10 ^ 18 * perihelion) \<noteq> 0"
    by simp_all
  with equator_cos_lha [OF sun_at_perihelion_fields sun_at_perihelion_y, of 1]
  obtain c where "riseset_cos_lha (Fin 0) (Fin 1) (Fin 1) sun_at_perihelion = Fin (1 / c)"
    "0 < c" "c < 1"
    by blast
  then show ?thesis by simp
qed

lemma sun_at_perihelion_bails:
  "riseset_body (Fin 0) (Fin 1) (Fin 1) lat lon direction sun_at_perihelion = Bail"
  by (simp add: riseset_body_cases sun_at_perihelion_above_one)

lemma hour_before_at:
  "riseset_at Sun_setTime (Fin 0) (Fin 1) (Fin 1) lat hour_before_lon (Fin (- 1)) (Suc 0) hour_before
     = Some sun_at_perihelion"
  by (simp add: hour_before_body Sun_at_perihelion)

lemma equator_constants:
  "Math_sin (Fin 0 * (Math_PI / Fin 180)) = Fin 0"
  "Math_cos (Fin 0 * (Math_PI / Fin 180)) = Fin 1"
  "Math_sin (Fin 90 * (Math_PI / Fin 180)) = Fin 1"
  by (simp_all add: Math_PI_def)

lemma hour_before_riseset:
  "riseset Sun_setTime hour_before (Fin 0) hour_before_lon (Fin 90) (Fin (- 1))
     = Some (NaN, hour_before)"
  unfolding riseset_def Let_def equator_constants
  by (simp add: riseset_loop_at [OF hour_before_at] sun_at_perihelion_bails)

lemma quarter_before_time_bounds: "200000000 < quarter_before_time" "quarter_before_time < 230000000"
  using perihelion_bounds pi_ge_two pi_less_4 by (simp_all add: quarter_before_time_def)

lemma quarter_before_obliquity: "0 < cos (0.412994 - 4121 / 10 ^ 18 * quarter_before_time)"
proof -
  let ?o = "0.412994 - 4121 / 10 ^ 18 * quarter_before_time"
  from quarter_before_time_bounds have o: "0 < ?o" "?o < 1" by simp_all
  from o pi_ge_two show "0 < cos ?o" by (intro cos_gt_zero) simp_all
qed

lemma quarter_before_fields:
  "time quarter_before = Fin quarter_before_time"
  "x quarter_before = Fin (sun_a * (1 - sun_e perihelion) * cos (sun_lp perihelion))"
  "y quarter_before = Fin (sun_a * (1 - sun_e perihelion) * sin (sun_lp perihelion)
            * cos (0.412994 - 4121 / 10 ^ 18 * perihelion)
            / cos (0.412994 - 4121 / 10 ^ 18 * quarter_before_time))"
  "z quarter_before = Fin 0"
  by (simp_all add: quarter_before_def)

lemma quarter_before_y:
  "sun_a * (1 - sun_e perihelion) * sin (sun_lp perihelion)
     * cos (0.412994 - 4121 / 10 ^ 18 * perihelion)
     / cos (0.412994 - 4121 / 10 ^ 18 * quarter_before_time) \<noteq> 0"
  using sun_at_perihelion_y perihelion_obliquity(2) quarter_before_obliquity by simp

lemma sun_at_perihelion_ra: "right_ascension sun_at_perihelion = Fin perihelion_ra"
  unfolding perihelion_ra_def by (rule right_ascension_Fin [OF sun_at_perihelion_fields])

lemma quarter_before_ra: "right_ascension quarter_before = Fin perihelion_ra"
proof -
  define k0 where "k0 = cos (0.412994 - 4121 / 10 ^ 18 * quarter_before_time)"
  define yk where "yk = sun_a * (1 - sun_e perihelion) * sin (sun_lp perihelion)
      * cos (0.412994 - 4121 / 10 ^ 18 * perihelion)"
  from quarter_before_obliquity have "k0 \<noteq> 0" by (simp add: k0_def)
  then have "yk / k0 * k0 = yk" by simp
  then have "0 * sin (0.412994 - 4121 / 10 ^ 18 * quarter_before_time) - yk / k0 * k0
      = 0 * sin (0.412994 - 4121 / 10 ^ 18 * perihelion) - yk"
    by simp
  then show ?thesis
    unfolding perihelion_ra_def right_ascension_Fin [OF quarter_before_fields]
    unfolding k0_def yk_def by (simp only:)
qed

lemma quarter_before_hour_angle: "hour_angle quarter_before quarter_before_lon = Fin 1"
proof -
  define g :: real where "g = 6.699851 + 278538308153 / 10 ^ 18 * quarter_before_time"
  define r where "r = perihelion_ra"
  have raw: "g + 15 * (49 + r - g) * (1 / 15) - r = 49" by (simp add: field_simps)
  have "hour_angle quarter_before (Fin (15 * (49 + r - g)))
      = Fin ((g + 15 * (49 + r - g) * (1 / 15) - r)
          - of_int \<lfloor>(g + 15 * (49 + r - g) * (1 / 15) - r) / 24\<rfloor> * 24)"
    unfolding g_def r_def by (rule hour_angle_Fin [OF quarter_before_fields(1) quarter_before_ra])
  also have "\<dots> = Fin 1" unfolding raw by simp
  finally show ?thesis unfolding g_def r_def quarter_before_lon_def .
qed

lemma quarter_before_cos_lha: "riseset_cos_lha (Fin 0) (Fin 1) (Fin 0) quarter_before = Fin 0"
proof -
  from quarter_before_obliquity
  have "cos (0.412994 - 4121 / 10 ^ 18 * quarter_before_time) \<noteq> 0" by simp
  with equator_cos_lha [OF quarter_before_fields quarter_before_y, of 0]
  obtain c where "riseset_cos_lha (Fin 0) (Fin 1) (Fin 0) quarter_before = Fin (0 / c)"
    by blast
  then show ?thesis by simp
qed

lemma sun_at_perihelion_cos_lha:
  "riseset_cos_lha (Fin 0) (Fin 1) (Fin 0) sun_at_perihelion = Fin 0"
proof -
  from perihelion_obliquity have "cos (0.412994 - 4121 / 10 ^ 18 * perihelion) \<noteq> 0" by simp
  with equator_cos_lha [OF sun_at_perihelion_fields sun_at_perihelion_y, of 0]
  obtain c where "riseset_cos_lha (Fin 0) (Fin 1) (Fin 0) sun_at_perihelion = Fin (0 / c)"
    by blast
  then show ?thesis by simp
qed

lemma quarter_before_body:
  "riseset_body (Fin 0) (Fin 1) (Fin 0) lat quarter_before_lon (Fin (- 1)) quarter_before
     = Again (Fin perihelion)"
proof -
  have "transit quarter_before lat quarter_before_lon = Fin (quarter_before_time - 3590170.4)"
    by (simp add: transit_def quarter_before_hour_angle quarter_before_fields)
  then have c: "riseset_candidate (Fin 0) (Fin 1) (Fin 0) lat quarter_before_lon (Fin (- 1))
      quarter_before = Fin perihelion"
    by (simp add: riseset_candidate_def quarter_before_cos_lha quarter_before_time_def)
  have "60000 \<le> \<bar>perihelion - quarter_before_time\<bar>"
    using pi_ge_two by (simp add: quarter_before_time_def)
  then show ?thesis
    by (simp add: riseset_body_cases quarter_before_cos_lha quarter_before_fields c js_ge_def)
qed

lemma sun_at_perihelion_hour_angle:
  "hour_angle sun_at_perihelion quarter_before_lon
     = Fin (1 - 278538308153 / 10 ^ 18 * (3590170.4 + 13713440.9 * (pi / 2)) + 24)"
proof -
  define g :: real where "g = 6.699851 + 278538308153 / 10 ^ 18 * perihelion"
  define r where "r = perihelion_ra"
  define v where "v = 1 - 278538308153 / 10 ^ 18 * (3590170.4 + 13713440.9 * (pi / 2))"
  have lon: "quarter_before_lon = Fin (15 * (v + 48 + r - g))"
    by (simp add: quarter_before_lon_def quarter_before_time_def v_def r_def g_def field_simps)
  have raw: "g + 15 * (v + 48 + r - g) * (1 / 15) - r = v + 48" by (simp add: field_simps)
  have "- 24 \<le> v" "v < 0"
    using pi_ge_two pi_less_4 by (simp_all add: v_def)
  then have "\<lfloor>(v + 48) / 24\<rfloor> = 1" by (simp add: floor_eq_iff)
  then have w: "v + 48 - of_int \<lfloor>(v + 48) / 24\<rfloor> * 24 = v + 24" by simp
  have "hour_angle sun_at_perihelion (Fin (15 * (v + 48 + r - g)))
      = Fin ((g + 15 * (v + 48 + r - g) * (1 / 15) - r)
          - of_int \<lfloor>(g + 15 * (v + 48 + r - g) * (1 / 15) - r) / 24\<rfloor> * 24)"
    unfolding g_def r_def
    by (rule hour_angle_Fin [OF sun_at_perihelion_fields(1) sun_at_perihelion_ra])
  also have "\<dots> = Fin (v + 24)" unfolding raw w ..
  finally show ?thesis unfolding lon v_def .
qed

lemma sun_at_perihelion_candidate:
  "riseset_candidate (Fin 0) (Fin 1) (Fin 0) lat quarter_before_lon (Fin (- 1)) sun_at_perihelion
     = Fin quarter_before_result"
proof -
  define v where "v = 1 - 278538308153 / 10 ^ 18 * (3590170.4 + 13713440.9 * (pi / 2))"
  have v: "- 12 < v" "v < 0"
    using pi_ge_two pi_less_4 by (simp_all add: v_def)
  have ha: "hour_angle sun_at_perihelion quarter_before_lon = Fin (v + 24)"
    unfolding v_def by (rule sun_at_perihelion_hour_angle)
  from v have "transit sun_at_perihelion lat quarter_before_lon = Fin (perihelion - 3590170.4 * v)"
    by (simp add: transit_def ha sun_at_perihelion_fields)
  then show ?thesis
    by (simp add: riseset_candidate_def sun_at_perihelion_cos_lha quarter_before_result_def v_def)
qed

lemma quarter_before_result_near: "\<bar>quarter_before_result - perihelion\<bar> < 60000"
  using pi_ge_two pi_less_4 unfolding quarter_before_result_def abs_less_iff
  by (simp add: field_simps)

lemma sun_at_perihelion_found:
  "riseset_body (Fin 0) (Fin 1) (Fin 0) lat quarter_before_lon (Fin (- 1)) sun_at_perihelion
     = Found (Fin quarter_before_result)"
  using quarter_before_result_near
  by (simp add: riseset_body_cases sun_at_perihelion_cos_lha sun_at_perihelion_fields
      sun_at_perihelion_candidate js_ge_def)

lemma quarter_before_at:
  "riseset_at Sun_setTime (Fin 0) (Fin 1) (Fin 0) lat quarter_before_lon (Fin (- 1)) (Suc 0)
     quarter_before = Some sun_at_perihelion"
  by (simp add: quarter_before_body Sun_at_perihelion)

lemma quarter_before_riseset:
  "riseset Sun_setTime quarter_before (Fin 0) quarter_before_lon (Fin 0) (Fin (- 1))
     = Some (Fin quarter_before_result, quarter_before)"
  unfolding riseset_def Let_def equator_constants
  by (simp add: riseset_loop_at [OF quarter_before_at] sun_at_perihelion_found)

text \<open>
  Four returning runs on which the solver leaves the body as it found it: two that leave
  the loop at the first evaluation, and the two runs through the perihelion, in which
  \<^verbatim>\<open>setTime\<close> has overwritten the four fields before the call returns.
\<close>

theorem riseset_preserves_state_witness:
  "(\<exists>r this'. riseset Sun_setTime on_axis (Fin 0) on_axis_lon (Fin 90) (Fin (- 1)) = Some (r, this')
      \<and> r = Fin (- 35901.704) \<and> this' = on_axis \<and> distance this' = distance on_axis)
   \<and> (\<exists>r this'. riseset Sun_setTime on_axis (Fin 90) on_axis_lon (Fin 90) (Fin (- 1)) = Some (r, this')
      \<and> r = NaN \<and> this' = on_axis \<and> distance this' = distance on_axis)
   \<and> (\<exists>r this'. riseset_at Sun_setTime (Fin 0) (Fin 1) (Fin 1) (Fin 0) hour_before_lon (Fin (- 1))
          (Suc 0) hour_before = Some sun_at_perihelion
      \<and> time sun_at_perihelion \<noteq> time hour_before
      \<and> riseset Sun_setTime hour_before (Fin 0) hour_before_lon (Fin 90) (Fin (- 1)) = Some (r, this')
      \<and> r = NaN \<and> this' = hour_before \<and> time this' = time hour_before
      \<and> x this' = x hour_before \<and> y this' = y hour_before \<and> z this' = z hour_before)
   \<and> (\<exists>r this'. riseset_at Sun_setTime (Fin 0) (Fin 1) (Fin 0) (Fin 0) quarter_before_lon (Fin (- 1))
          (Suc 0) quarter_before = Some sun_at_perihelion
      \<and> time sun_at_perihelion \<noteq> time quarter_before
      \<and> riseset Sun_setTime quarter_before (Fin 0) quarter_before_lon (Fin 0) (Fin (- 1))
           = Some (r, this')
      \<and> r = Fin quarter_before_result \<and> this' = quarter_before
      \<and> time this' = time quarter_before \<and> x this' = x quarter_before
      \<and> y this' = y quarter_before \<and> z this' = z quarter_before)"
proof -
  have a: "riseset Sun_setTime on_axis (Fin 0) on_axis_lon (Fin 90) (Fin (- 1))
      = Some (Fin (- 35901.704), on_axis)"
    by (rule on_axis_riseset)
  have b: "riseset Sun_setTime on_axis (Fin 90) on_axis_lon (Fin 90) (Fin (- 1)) = Some (NaN, on_axis)"
    by (rule on_axis_riseset_bail)
  note c = hour_before_riseset
  note d = quarter_before_riseset
  have tc: "time sun_at_perihelion \<noteq> time hour_before"
    by (simp add: sun_at_perihelion_fields hour_before_fields)
  have td: "time sun_at_perihelion \<noteq> time quarter_before"
    using quarter_before_time_bounds perihelion_bounds
    by (simp add: sun_at_perihelion_fields quarter_before_fields)
  note ra = riseset_preserves_state [OF disjI1 a, OF refl]
  note rb = riseset_preserves_state [OF disjI1 b, OF refl]
  note rc = riseset_preserves_state [OF disjI1 c, OF refl]
  note rd = riseset_preserves_state [OF disjI1 d, OF refl]
  have 1: "\<exists>r this'. riseset Sun_setTime on_axis (Fin 0) on_axis_lon (Fin 90) (Fin (- 1)) = Some (r, this')
      \<and> r = Fin (- 35901.704) \<and> this' = on_axis \<and> distance this' = distance on_axis"
    using a ra by (intro exI [of _ "Fin (- 35901.704)"] exI [of _ on_axis]) simp
  have 2: "\<exists>r this'. riseset Sun_setTime on_axis (Fin 90) on_axis_lon (Fin 90) (Fin (- 1)) = Some (r, this')
      \<and> r = NaN \<and> this' = on_axis \<and> distance this' = distance on_axis"
    using b rb by (intro exI [of _ NaN] exI [of _ on_axis]) simp
  have 3: "\<exists>r this'. riseset_at Sun_setTime (Fin 0) (Fin 1) (Fin 1) (Fin 0) hour_before_lon (Fin (- 1))
          (Suc 0) hour_before = Some sun_at_perihelion
      \<and> time sun_at_perihelion \<noteq> time hour_before
      \<and> riseset Sun_setTime hour_before (Fin 0) hour_before_lon (Fin 90) (Fin (- 1)) = Some (r, this')
      \<and> r = NaN \<and> this' = hour_before \<and> time this' = time hour_before
      \<and> x this' = x hour_before \<and> y this' = y hour_before \<and> z this' = z hour_before"
    using c rc tc hour_before_at [of "Fin 0"]
    by (intro exI [of _ NaN] exI [of _ hour_before]) simp
  have 4: "\<exists>r this'. riseset_at Sun_setTime (Fin 0) (Fin 1) (Fin 0) (Fin 0) quarter_before_lon (Fin (- 1))
          (Suc 0) quarter_before = Some sun_at_perihelion
      \<and> time sun_at_perihelion \<noteq> time quarter_before
      \<and> riseset Sun_setTime quarter_before (Fin 0) quarter_before_lon (Fin 0) (Fin (- 1))
           = Some (r, this')
      \<and> r = Fin quarter_before_result \<and> this' = quarter_before
      \<and> time this' = time quarter_before \<and> x this' = x quarter_before
      \<and> y this' = y quarter_before \<and> z this' = z quarter_before"
    using d rd td quarter_before_at [of "Fin 0"]
    by (intro exI [of _ "Fin quarter_before_result"] exI [of _ quarter_before]) simp
  from 1 2 3 4 show ?thesis by (intro conjI)
qed

section \<open>The result of the solver\<close>

text \<open>
  Claim C3, as amended. \<^verbatim>\<open>riseset\<close> has no statement that raises and applies only
  arithmetic and functions of \<^verbatim>\<open>Math\<close>, which are defined on every number: a call either
  does not end or returns a number, with the body as it was. A call that returns does so at
  some evaluation of its loop: with \<open>NaN\<close> if \<open>|cos_lha| > 1\<close> there, and otherwise with the
  candidate \<open>transit + 13713440.9\<cdot>direction\<cdot>acos(cos_lha)\<close>, which is less than 60000 ms
  from the body's time. Conversely, the call returns \<open>NaN\<close> as soon as the iteration
  reaches a state with \<open>|cos_lha| > 1\<close>, and returns the candidate as soon as it reaches a
  state where neither test of the loop holds. When the fields of the body at that evaluation
  and the longitude are finite and the direction is -1 or 1, the candidate is \<open>NaN\<close> exactly
  when \<open>cos_lha\<close> is \<open>NaN\<close>, and is a finite number otherwise.
\<close>

theorem riseset_result:
  fixes lat lon h0 direction :: number
  defines "sl \<equiv> Math_sin (lat * (Math_PI / Fin 180))"
    and "cl \<equiv> Math_cos (lat * (Math_PI / Fin 180))"
    and "sh \<equiv> Math_sin (h0 * (Math_PI / Fin 180))"
  shows "(riseset setTime this lat lon h0 direction = None
       \<or> (\<exists>r. riseset setTime this lat lon h0 direction = Some (r, this)))
     \<and> (\<forall>r this'. riseset setTime this lat lon h0 direction = Some (r, this') \<longrightarrow>
         (\<exists>k b. riseset_at setTime sl cl sh lat lon direction k this = Some b
            \<and> (if js_gt (Math_abs (riseset_cos_lha sl cl sh b)) (Fin 1) then r = NaN
               else r = riseset_candidate sl cl sh lat lon direction b
                  \<and> \<not> js_ge (Math_abs (r - time b)) (Fin 60000))))
     \<and> (\<forall>k b. riseset_at setTime sl cl sh lat lon direction k this = Some b
            \<and> js_gt (Math_abs (riseset_cos_lha sl cl sh b)) (Fin 1) \<longrightarrow>
          riseset setTime this lat lon h0 direction = Some (NaN, this))
     \<and> (\<forall>k b. riseset_at setTime sl cl sh lat lon direction k this = Some b
            \<and> \<not> js_gt (Math_abs (riseset_cos_lha sl cl sh b)) (Fin 1)
            \<and> \<not> js_ge (Math_abs (riseset_candidate sl cl sh lat lon direction b - time b))
                  (Fin 60000) \<longrightarrow>
          riseset setTime this lat lon h0 direction
            = Some (riseset_candidate sl cl sh lat lon direction b, this)
          \<and> (is_finite (time b) \<and> is_finite (x b) \<and> is_finite (y b) \<and> is_finite (z b)
               \<and> is_finite lon \<and> (direction = Fin 1 \<or> direction = Fin (- 1)) \<longrightarrow>
              (riseset_candidate sl cl sh lat lon direction b = NaN
                 \<longleftrightarrow> riseset_cos_lha sl cl sh b = NaN)
              \<and> (riseset_candidate sl cl sh lat lon direction b \<noteq> NaN
                 \<longrightarrow> is_finite (riseset_candidate sl cl sh lat lon direction b))))"
proof (intro conjI allI impI)
  show "riseset setTime this lat lon h0 direction = None
       \<or> (\<exists>r. riseset setTime this lat lon h0 direction = Some (r, this))"
  proof (cases "riseset setTime this lat lon h0 direction")
    case None
    then show ?thesis by simp
  next
    case (Some res)
    then have "riseset setTime this lat lon h0 direction = Some (fst res, snd res)" by simp
    then have "snd res = this" by (rule riseset_restores)
    with Some show ?thesis by (cases res) simp
  qed
next
  fix r this'
  assume "riseset setTime this lat lon h0 direction = Some (r, this')"
  then have "riseset_exit setTime this sl cl sh lat lon direction this (r, this')"
    unfolding sl_def cl_def sh_def by (simp add: riseset_def riseset_loop_exit)
  then obtain k b where k: "riseset_at setTime sl cl sh lat lon direction k this = Some b"
    and e: "riseset_body sl cl sh lat lon direction b = Bail \<and> r = NaN
        \<or> riseset_body sl cl sh lat lon direction b = Found r"
    by (auto simp add: riseset_exit_def)
  from e have "if js_gt (Math_abs (riseset_cos_lha sl cl sh b)) (Fin 1) then r = NaN
      else r = riseset_candidate sl cl sh lat lon direction b
         \<and> \<not> js_ge (Math_abs (r - time b)) (Fin 60000)"
    by (auto simp add: riseset_body_cases split: if_splits)
  with k
  show "\<exists>k b. riseset_at setTime sl cl sh lat lon direction k this = Some b
          \<and> (if js_gt (Math_abs (riseset_cos_lha sl cl sh b)) (Fin 1) then r = NaN
             else r = riseset_candidate sl cl sh lat lon direction b
                \<and> \<not> js_ge (Math_abs (r - time b)) (Fin 60000))"
    by blast
next
  fix k b
  assume a: "riseset_at setTime sl cl sh lat lon direction k this = Some b
      \<and> js_gt (Math_abs (riseset_cos_lha sl cl sh b)) (Fin 1)"
  then have "riseset_body sl cl sh lat lon direction b = Bail"
    by (simp add: riseset_body_cases)
  with riseset_loop_at [of setTime sl cl sh lat lon direction k this b] a
  show "riseset setTime this lat lon h0 direction = Some (NaN, this)"
    unfolding sl_def cl_def sh_def by (simp add: riseset_def)
next
  fix k b
  assume a: "riseset_at setTime sl cl sh lat lon direction k this = Some b
      \<and> \<not> js_gt (Math_abs (riseset_cos_lha sl cl sh b)) (Fin 1)
      \<and> \<not> js_ge (Math_abs (riseset_candidate sl cl sh lat lon direction b - time b))
            (Fin 60000)"
  then have "riseset_body sl cl sh lat lon direction b
      = Found (riseset_candidate sl cl sh lat lon direction b)"
    by (simp add: riseset_body_cases)
  with riseset_loop_at [of setTime sl cl sh lat lon direction k this b] a
  show "riseset setTime this lat lon h0 direction
      = Some (riseset_candidate sl cl sh lat lon direction b, this)"
    unfolding sl_def cl_def sh_def by (simp add: riseset_def)
next
  fix k b
  assume a: "riseset_at setTime sl cl sh lat lon direction k this = Some b
      \<and> \<not> js_gt (Math_abs (riseset_cos_lha sl cl sh b)) (Fin 1)
      \<and> \<not> js_ge (Math_abs (riseset_candidate sl cl sh lat lon direction b - time b))
            (Fin 60000)"
    and f: "is_finite (time b) \<and> is_finite (x b) \<and> is_finite (y b) \<and> is_finite (z b)
      \<and> is_finite lon \<and> (direction = Fin 1 \<or> direction = Fin (- 1))"
  from f have "is_finite (transit b lat lon)" by (simp add: transit_finite)
  moreover from f have "is_finite direction" by auto
  ultimately have c: "(riseset_candidate sl cl sh lat lon direction b = NaN
         \<longleftrightarrow> riseset_cos_lha sl cl sh b = NaN)
       \<and> (riseset_candidate sl cl sh lat lon direction b \<noteq> NaN
         \<longrightarrow> is_finite (riseset_candidate sl cl sh lat lon direction b))"
    using a by (intro candidate_NaN_iff) simp_all
  from c show "(riseset_candidate sl cl sh lat lon direction b = NaN)
      = (riseset_cos_lha sl cl sh b = NaN)"
    by simp
  assume "riseset_candidate sl cl sh lat lon direction b \<noteq> NaN"
  with c show "is_finite (riseset_candidate sl cl sh lat lon direction b)" by simp
qed

theorem riseset_result_witness:
  "riseset_at Sun_setTime (Fin 0) (Fin 1) (Fin 1) (Fin 0) hour_before_lon (Fin (- 1)) (Suc 0)
      hour_before = Some sun_at_perihelion
   \<and> js_gt (Math_abs (riseset_cos_lha (Fin 0) (Fin 1) (Fin 1) sun_at_perihelion)) (Fin 1)
   \<and> riseset Sun_setTime hour_before (Fin 0) hour_before_lon (Fin 90) (Fin (- 1))
       = Some (NaN, hour_before)
   \<and> riseset_at Sun_setTime (Fin 0) (Fin 1) (Fin 0) (Fin 0) quarter_before_lon (Fin (- 1)) (Suc 0)
      quarter_before = Some sun_at_perihelion
   \<and> \<not> js_gt (Math_abs (riseset_cos_lha (Fin 0) (Fin 1) (Fin 0) sun_at_perihelion)) (Fin 1)
   \<and> riseset_candidate (Fin 0) (Fin 1) (Fin 0) (Fin 0) quarter_before_lon (Fin (- 1))
       sun_at_perihelion = Fin quarter_before_result
   \<and> \<not> js_ge (Math_abs (Fin quarter_before_result - time sun_at_perihelion)) (Fin 60000)
   \<and> is_finite (time sun_at_perihelion) \<and> is_finite (x sun_at_perihelion)
   \<and> is_finite (y sun_at_perihelion) \<and> is_finite (z sun_at_perihelion)
   \<and> is_finite quarter_before_lon
   \<and> riseset Sun_setTime quarter_before (Fin 0) quarter_before_lon (Fin 0) (Fin (- 1))
       = Some (Fin quarter_before_result, quarter_before)
   \<and> riseset_cos_lha (Fin 0) (Fin 1) (Fin 0) sun_at_perihelion \<noteq> NaN
   \<and> is_finite (Fin quarter_before_result)
   \<and> (\<exists>k b. riseset_at Sun_setTime (Fin 0) (Fin 1) (Fin 0) (Fin 0) quarter_before_lon (Fin (- 1)) k
          quarter_before = Some b
        \<and> (if js_gt (Math_abs (riseset_cos_lha (Fin 0) (Fin 1) (Fin 0) b)) (Fin 1)
           then Fin quarter_before_result = NaN
           else Fin quarter_before_result
                = riseset_candidate (Fin 0) (Fin 1) (Fin 0) (Fin 0) quarter_before_lon (Fin (- 1)) b
              \<and> \<not> js_ge (Math_abs (Fin quarter_before_result - time b)) (Fin 60000)))"
proof -
  note p = riseset_result [of Sun_setTime hour_before "Fin 0" hour_before_lon "Fin 90" "Fin (- 1)",
      unfolded equator_constants]
  note q = riseset_result [of Sun_setTime quarter_before "Fin 0" quarter_before_lon "Fin 0"
      "Fin (- 1)", unfolded equator_constants]
  have p1: "riseset_at Sun_setTime (Fin 0) (Fin 1) (Fin 1) (Fin 0) hour_before_lon (Fin (- 1)) (Suc 0)
      hour_before = Some sun_at_perihelion"
    by (rule hour_before_at)
  note p2 = sun_at_perihelion_above_one
  from p [THEN conjunct2, THEN conjunct2, THEN conjunct1, rule_format, OF conjI, OF p1 p2]
  have p3: "riseset Sun_setTime hour_before (Fin 0) hour_before_lon (Fin 90) (Fin (- 1))
      = Some (NaN, hour_before)" .
  have q1: "riseset_at Sun_setTime (Fin 0) (Fin 1) (Fin 0) (Fin 0) quarter_before_lon (Fin (- 1))
      (Suc 0) quarter_before = Some sun_at_perihelion"
    by (rule quarter_before_at)
  have q2: "\<not> js_gt (Math_abs (riseset_cos_lha (Fin 0) (Fin 1) (Fin 0) sun_at_perihelion)) (Fin 1)"
    by (simp add: sun_at_perihelion_cos_lha)
  note q3 = sun_at_perihelion_candidate [of "Fin 0"]
  have q4: "\<not> js_ge (Math_abs (Fin quarter_before_result - time sun_at_perihelion)) (Fin 60000)"
    using quarter_before_result_near by (simp add: sun_at_perihelion_fields js_ge_def)
  have q4': "\<not> js_ge (Math_abs (riseset_candidate (Fin 0) (Fin 1) (Fin 0) (Fin 0) quarter_before_lon
      (Fin (- 1)) sun_at_perihelion - time sun_at_perihelion)) (Fin 60000)"
    unfolding q3 by (rule q4)
  have fin: "is_finite (time sun_at_perihelion)" "is_finite (x sun_at_perihelion)"
    "is_finite (y sun_at_perihelion)" "is_finite (z sun_at_perihelion)"
    "is_finite quarter_before_lon"
    by (simp_all add: sun_at_perihelion_fields quarter_before_lon_def)
  have dir: "Fin (- 1) = Fin 1 \<or> Fin (- 1) = Fin (- 1)" by simp
  note q5 = q [THEN conjunct2, THEN conjunct2, THEN conjunct2, rule_format, of "Suc 0"
      sun_at_perihelion, OF conjI [OF q1 conjI [OF q2 q4']]]
  from q5 have q6: "riseset Sun_setTime quarter_before (Fin 0) quarter_before_lon (Fin 0) (Fin (- 1))
      = Some (Fin quarter_before_result, quarter_before)"
    unfolding q3 by (rule conjunct1)
  from q5 fin dir have q7: "riseset_cos_lha (Fin 0) (Fin 1) (Fin 0) sun_at_perihelion \<noteq> NaN"
    "is_finite (Fin quarter_before_result)"
    unfolding q3 by simp_all
  note q8 = q [THEN conjunct2, THEN conjunct1, rule_format, OF q6]
  from p1 p2 p3 q1 q2 q3 q4 fin q6 q7 q8 show ?thesis by (intro conjI)
qed

text \<open>
  As the claim is written, \<open>NaN\<close> is returned only where \<open>|cos_lha| > 1\<close> is reached and a
  normal return is a number. The Sun of the far past has a \<open>NaN\<close> position, hence a \<open>NaN\<close>
  declination and a \<open>NaN\<close> \<open>cos_lha\<close>: no test of the loop is true, and the first evaluation
  of \<^verbatim>\<open>rise(0, 0)\<close> returns its \<open>NaN\<close> candidate on the normal path. A \<open>NaN\<close> latitude does
  the same for the body on the axis.
\<close>

theorem riseset_NaN_without_bail:
  "(\<exists>sun. Sun_setTime on_axis (Fin far_past) = Some sun
      \<and> Sun_rise sun (Fin 0) (Fin 0) = Some (NaN, sun)
      \<and> \<not> (\<exists>k b. riseset_at Sun_setTime (Math_sin (Fin 0 * (Math_PI / Fin 180)))
            (Math_cos (Fin 0 * (Math_PI / Fin 180)))
            (Math_sin (Fin (- 0.833) * (Math_PI / Fin 180))) (Fin 0) (Fin 0) (Fin (- 1)) k sun
          = Some b
        \<and> js_gt (Math_abs (riseset_cos_lha (Math_sin (Fin 0 * (Math_PI / Fin 180)))
            (Math_cos (Fin 0 * (Math_PI / Fin 180)))
            (Math_sin (Fin (- 0.833) * (Math_PI / Fin 180))) b)) (Fin 1)))
   \<and> riseset Sun_setTime on_axis NaN on_axis_lon (Fin (- 0.833)) (Fin (- 1)) = Some (NaN, on_axis)
   \<and> \<not> (\<exists>k b. riseset_at Sun_setTime (Math_sin (NaN * (Math_PI / Fin 180)))
            (Math_cos (NaN * (Math_PI / Fin 180)))
            (Math_sin (Fin (- 0.833) * (Math_PI / Fin 180))) NaN on_axis_lon (Fin (- 1)) k on_axis
          = Some b
        \<and> js_gt (Math_abs (riseset_cos_lha (Math_sin (NaN * (Math_PI / Fin 180)))
            (Math_cos (NaN * (Math_PI / Fin 180)))
            (Math_sin (Fin (- 0.833) * (Math_PI / Fin 180))) b)) (Fin 1))"
proof -
  let ?sun = "on_axis\<lparr>time := Fin far_past, x := NaN, y := NaN, z := NaN\<rparr>"
  let ?sl = "Math_sin (Fin 0 * (Math_PI / Fin 180))"
  let ?cl = "Math_cos (Fin 0 * (Math_PI / Fin 180))"
  let ?sh = "Math_sin (Fin (- 0.833) * (Math_PI / Fin 180))"
  have y: "y ?sun = NaN" by simp
  have "Sun_rise ?sun (Fin 0) (Fin 0) = Some (NaN, ?sun)"
    unfolding Sun_rise_def riseset_def Let_def
    by (subst riseset_loop.simps) (simp add: riseset_NaN_position_body [OF y])
  moreover have "\<not> (riseset_at Sun_setTime ?sl ?cl ?sh (Fin 0) (Fin 0) (Fin (- 1)) k ?sun = Some b
        \<and> js_gt (Math_abs (riseset_cos_lha ?sl ?cl ?sh b)) (Fin 1))" for k b
  proof (cases k)
    case 0
    then show ?thesis by (auto simp add: riseset_NaN_position_body(1) [OF y])
  next
    case (Suc n)
    then show ?thesis by (simp add: riseset_NaN_position_body(2) [OF y])
  qed
  ultimately have far: "\<exists>sun. Sun_setTime on_axis (Fin far_past) = Some sun
      \<and> Sun_rise sun (Fin 0) (Fin 0) = Some (NaN, sun)
      \<and> \<not> (\<exists>k b. riseset_at Sun_setTime ?sl ?cl ?sh (Fin 0) (Fin 0) (Fin (- 1)) k sun = Some b
        \<and> js_gt (Math_abs (riseset_cos_lha ?sl ?cl ?sh b)) (Fin 1))"
    unfolding Sun_far_past by blast
  have n: "Math_sin (NaN * (Math_PI / Fin 180)) = NaN" "Math_cos (NaN * (Math_PI / Fin 180)) = NaN"
    by simp_all
  have "riseset Sun_setTime on_axis NaN on_axis_lon (Fin (- 0.833)) (Fin (- 1)) = Some (NaN, on_axis)"
    unfolding riseset_def Let_def n
    by (subst riseset_loop.simps) (simp add: riseset_NaN_latitude_body restore_saved)
  moreover have "\<not> (riseset_at Sun_setTime NaN NaN ?sh NaN on_axis_lon (Fin (- 1)) k on_axis = Some b
        \<and> js_gt (Math_abs (riseset_cos_lha NaN NaN ?sh b)) (Fin 1))" for k b
    by (cases k) (simp_all add: riseset_NaN_latitude_body riseset_cos_lha_def Let_def)
  ultimately show ?thesis using far unfolding n by blast
qed

section \<open>The Moon at perigee\<close>

lemma Moon_setTime_unfold:
  "Moon_setTime this (Fin t) =
     Planet_setTime this (Fin t) (Fin moon_a) (Fin moon_e) (Fin moon_i) (Fin (moon_ml t))
       (Fin (moon_lp t)) (Fin (moon_an t))"
  by (simp add: Moon_setTime_def moon_a_def moon_e_def moon_i_def moon_ml_def moon_lp_def
      moon_an_def)

lemma perigee_M: "moon_ml perigee - moon_lp perigee = 0"
  by (simp add: moon_ml_def moon_lp_def perigee_def)

lemma moon_e_bounds: "0 < moon_e" "moon_e < 1"
  by (simp_all add: moon_e_def)

lemma moon_a_pos: "0 < moon_a"
  by (simp add: moon_a_def)

lemma rotation_unit:
  fixes w an i :: real
  shows "(cos w * cos an - sin w * sin an * cos i)\<^sup>2
       + (cos w * sin an + sin w * cos an * cos i)\<^sup>2
       + (sin w * sin i)\<^sup>2 = 1"
proof -
  have w: "(sin w)\<^sup>2 = 1 - (cos w)\<^sup>2" and an: "(sin an)\<^sup>2 = 1 - (cos an)\<^sup>2"
    and i: "(sin i)\<^sup>2 = 1 - (cos i)\<^sup>2"
    by (simp_all add: sin_squared_eq)
  have "(cos w * cos an - sin w * sin an * cos i)\<^sup>2
       + (cos w * sin an + sin w * cos an * cos i)\<^sup>2
       + (sin w * sin i)\<^sup>2
     = (cos w)\<^sup>2 * ((cos an)\<^sup>2 + (sin an)\<^sup>2)
       + (sin w)\<^sup>2 * ((cos i)\<^sup>2 * ((cos an)\<^sup>2 + (sin an)\<^sup>2) + (sin i)\<^sup>2)"
    by algebra
  also have "\<dots> = 1" by (simp add: w an i)
  finally show ?thesis .
qed

lemma Moon_perigee:
  "Moon_setTime this (Fin perigee) =
     Some (this\<lparr>time := Fin perigee,
       x := Fin (moon_a * (1 - moon_e) * fst perigee_dir),
       y := Fin (moon_a * (1 - moon_e) * fst (snd perigee_dir)),
       z := Fin (moon_a * (1 - moon_e) * snd (snd perigee_dir))\<rparr>)"
proof -
  from moon_e_bounds have le: "moon_e * moon_e \<le> 1"
    by (intro abs_le_1_square) simp
  from moon_e_bounds have "moon_e * cos 0 \<noteq> 1" by simp
  with kepler_loop_fixed [of 0 moon_e]
  have "kepler_loop (Fin (moon_ml perigee - moon_lp perigee)) (Fin moon_e)
      (Fin (moon_ml perigee - moon_lp perigee)
        + Fin moon_e * Math_sin (Fin (moon_ml perigee - moon_lp perigee)))
      = Some (Fin 0)"
    by (simp add: perigee_M)
  from Planet_setTime_Fin [OF this le] show ?thesis
    unfolding Moon_setTime_unfold by (simp add: perigee_dir_def Let_def)
qed

lemma moon_entry_fields [simp]:
  "time moon_entry = Fin moon_entry_time" "x moon_entry = Fin moon_entry_x"
  "y moon_entry = Fin 0" "z moon_entry = Fin 0"
  by (simp_all add: moon_entry_def)

lemma moon_entry_x_pos: "0 < moon_entry_x"
  by (simp add: moon_entry_x_def)

lemma moon_entry_distance: "distance moon_entry = Fin moon_entry_x"
  using moon_entry_x_pos by (simp add: distance_def)

lemma moon_entry_sin_h0: "Moon_sin_h0 moon_entry = Fin 0"
proof -
  have "(Fin (- 0.583) - parallax (distance moon_entry)) * (Math_PI / Fin 180) = Fin (- pi)"
    using moon_entry_x_pos
    by (simp add: moon_entry_distance parallax_def Math_PI_def) (simp add: moon_entry_x_def)
  then show ?thesis by (simp add: Moon_sin_h0_def)
qed

lemma moon_entry_declination: "declination moon_entry = Fin 0"
  using moon_entry_x_pos
  by (simp add: declination_def moon_entry_distance obliquity_Fin Math_PI_def)

lemma moon_entry_right_ascension: "right_ascension moon_entry = Fin 24"
  using moon_entry_x_pos
  by (simp add: right_ascension_Fin [OF moon_entry_fields] atan2_def)

lemma moon_entry_hour_angle: "hour_angle moon_entry moon_entry_lon = Fin 0"
proof -
  define g :: real where "g = 6.699851 + 278538308153 / 10 ^ 18 * moon_entry_time"
  have raw: "g + 15 * (216 - g) * (1 / 15) - 24 = 192" by (simp add: field_simps)
  have "hour_angle moon_entry (Fin (15 * (216 - g)))
      = Fin ((g + 15 * (216 - g) * (1 / 15) - 24)
          - of_int \<lfloor>(g + 15 * (216 - g) * (1 / 15) - 24) / 24\<rfloor> * 24)"
    unfolding g_def by (rule hour_angle_Fin [OF moon_entry_fields(1) moon_entry_right_ascension])
  also have "\<dots> = Fin 0" unfolding raw by simp
  finally show ?thesis unfolding g_def moon_entry_lon_def .
qed

lemma moon_entry_transit: "transit moon_entry lat moon_entry_lon = Fin moon_entry_time"
  by (simp add: transit_def moon_entry_hour_angle)

lemma moon_entry_cos_lha: "riseset_cos_lha (Fin 0) (Fin 1) (Fin 0) moon_entry = Fin 0"
  by (simp add: riseset_cos_lha_def moon_entry_declination Math_PI_def)

lemma moon_entry_candidate:
  "riseset_candidate (Fin 0) (Fin 1) (Fin 0) lat moon_entry_lon (Fin (- 1)) moon_entry = Fin perigee"
  by (simp add: riseset_candidate_def moon_entry_cos_lha moon_entry_transit moon_entry_time_def)

lemma moon_entry_body:
  "riseset_body (Fin 0) (Fin 1) (Fin 0) lat moon_entry_lon (Fin (- 1)) moon_entry
     = Again (Fin perigee)"
proof -
  have "60000 \<le> 13713440.9 * (pi / 2)" using pi_ge_two by simp
  then have "js_ge (Math_abs (Fin perigee - time moon_entry)) (Fin 60000)"
    by (simp add: js_ge_def moon_entry_time_def)
  then show ?thesis
    by (simp add: riseset_body_cases moon_entry_cos_lha moon_entry_candidate)
qed

lemma moon_entry_next:
  "riseset_at Moon_setTime (Fin 0) (Fin 1) (Fin 0) lat moon_entry_lon (Fin (- 1)) (Suc 0) moon_entry
     = Some moon_at_perigee"
  by (simp add: moon_entry_body Moon_perigee moon_at_perigee_def)

lemma moon_at_perigee_fields [simp]:
  "time moon_at_perigee = Fin perigee"
  "x moon_at_perigee = Fin (moon_a * (1 - moon_e) * fst perigee_dir)"
  "y moon_at_perigee = Fin (moon_a * (1 - moon_e) * fst (snd perigee_dir))"
  "z moon_at_perigee = Fin (moon_a * (1 - moon_e) * snd (snd perigee_dir))"
  by (simp_all add: moon_at_perigee_def)

lemma perigee_dir_unit:
  "fst perigee_dir * fst perigee_dir + fst (snd perigee_dir) * fst (snd perigee_dir)
     + snd (snd perigee_dir) * snd (snd perigee_dir) = 1"
  using rotation_unit [of "moon_lp perigee - moon_an perigee" "moon_an perigee" moon_i]
  by (simp add: perigee_dir_def Let_def power2_eq_square)

lemma perigee_radius_pos: "0 < moon_a * (1 - moon_e)"
  using moon_a_pos moon_e_bounds by simp

lemma moon_nz: "moon_a \<noteq> 0" "moon_e \<noteq> 1"
  using moon_a_pos moon_e_bounds by simp_all

lemma moon_at_perigee_distance: "distance moon_at_perigee = Fin (moon_a * (1 - moon_e))"
proof -
  define u where "u = moon_a * (1 - moon_e)"
  let ?A = "fst perigee_dir" and ?B = "fst (snd perigee_dir)" and ?C = "snd (snd perigee_dir)"
  have u: "0 < u" unfolding u_def by (rule perigee_radius_pos)
  have "u * ?A * (u * ?A) + u * ?B * (u * ?B) + u * ?C * (u * ?C)
      = u * u * (?A * ?A + ?B * ?B + ?C * ?C)"
    by algebra
  also have "\<dots> = u * u" by (simp only: perigee_dir_unit mult_1_right)
  finally have eq: "u * ?A * (u * ?A) + u * ?B * (u * ?B) + u * ?C * (u * ?C) = u * u" .
  have "distance moon_at_perigee = Fin (sqrt (u * u))"
    unfolding u_def eq [unfolded u_def, symmetric]
    by (rule distance_Fin [OF moon_at_perigee_fields(2-4)])
  also have "sqrt (u * u) = u" using u by simp
  finally show ?thesis unfolding u_def .
qed

lemma moon_at_perigee_sin_h0: "\<exists>s. Moon_sin_h0 moon_at_perigee = Fin s \<and> s < 0"
proof -
  define h :: real where "h = 0.583 + 2443 / 10 ^ 6 / (moon_a * (1 - moon_e))"
  have h: "0 < h" "h < 180" by (simp_all add: h_def moon_a_def moon_e_def)
  have "0 < h * (pi / 180)" using h(1) by simp
  moreover have "h * (pi / 180) < 180 * (pi / 180)"
    using h(2) by (intro mult_strict_right_mono) simp_all
  ultimately have "0 < sin (h * (pi / 180))" by (intro sin_gt_zero) simp_all
  then have neg: "sin (- (h * (pi / 180))) < 0" by simp
  have "(Fin (- 0.583) - parallax (distance moon_at_perigee)) * (Math_PI / Fin 180)
      = Fin (- (h * (pi / 180)))"
    by (simp add: moon_at_perigee_distance parallax_def Math_PI_def h_def moon_nz)
      (simp add: algebra_simps)
  then have "Moon_sin_h0 moon_at_perigee = Fin (sin (- (h * (pi / 180))))"
    by (simp only: Moon_sin_h0_def Math_sin.simps)
  with neg show ?thesis by blast
qed

lemma moon_at_perigee_cos_dec:
  "\<exists>c. 0 \<le> c \<and> (\<forall>s. riseset_cos_lha (Fin 0) (Fin 1) (Fin s) moon_at_perigee = Fin s / Fin c)"
proof -
  define u where "u = moon_a * (1 - moon_e)"
  from perigee_radius_pos have "0 < u" by (simp only: u_def)
  then have u: "u \<noteq> 0" by simp
  have "u * fst perigee_dir \<noteq> 0 \<or> u * fst (snd perigee_dir) \<noteq> 0
      \<or> u * snd (snd perigee_dir) \<noteq> 0"
  proof (rule ccontr)
    assume "\<not> ?thesis"
    with u have "fst perigee_dir = 0" "fst (snd perigee_dir) = 0" "snd (snd perigee_dir) = 0"
      by simp_all
    with perigee_dir_unit show False by simp
  qed
  with moon_at_perigee_fields [folded u_def] obtain q
    where d: "declination moon_at_perigee = Fin (arcsin q * (180 / pi))" and q: "\<bar>q\<bar> \<le> 1"
    by (rule declination_Fin)
  from q have "0 \<le> cos (arcsin q)" by (simp add: cos_arcsin abs_square_le_1 abs_le_iff)
  moreover have "riseset_cos_lha (Fin 0) (Fin 1) (Fin s) moon_at_perigee = Fin s / Fin (cos (arcsin q))"
    for s
    by (simp add: riseset_cos_lha_def d Math_PI_def)
  ultimately show ?thesis by blast
qed

lemma arccos_half_pi:
  assumes "\<bar>v\<bar> \<le> 1" "arccos v = pi / 2"
  shows "v = 0"
proof -
  from assms(1) have "cos (arccos v) = v" by (simp add: abs_le_iff)
  then show ?thesis by (simp add: assms(2))
qed

lemma riseset_body_shape:
  "\<not> js_gt (Math_abs (riseset_cos_lha sl cl sh b)) (Fin 1) \<Longrightarrow>
   riseset_body sl cl sh la lo di b = Again (riseset_candidate sl cl sh la lo di b)
   \<or> riseset_body sl cl sh la lo di b = Found (riseset_candidate sl cl sh la lo di b)"
  by (simp add: riseset_body_cases)

lemma moon_at_perigee_differs:
  assumes "s < 0"
  shows "riseset_body (Fin 0) (Fin 1) (Fin 0) lat moon_entry_lon (Fin (- 1)) moon_at_perigee
       \<noteq> riseset_body (Fin 0) (Fin 1) (Fin s) lat moon_entry_lon (Fin (- 1)) moon_at_perigee"
proof -
  from moon_at_perigee_cos_dec obtain c where c: "0 \<le> c"
    and l: "\<And>s. riseset_cos_lha (Fin 0) (Fin 1) (Fin s) moon_at_perigee = Fin s / Fin c"
    by blast
  have "is_finite (transit moon_at_perigee lat moon_entry_lon)"
    by (rule transit_finite) (simp_all add: moon_entry_lon_def)
  then obtain v where v: "transit moon_at_perigee lat moon_entry_lon = Fin v"
    by (rule is_finiteE)
  let ?b0 = "riseset_body (Fin 0) (Fin 1) (Fin 0) lat moon_entry_lon (Fin (- 1)) moon_at_perigee"
  let ?b1 = "riseset_body (Fin 0) (Fin 1) (Fin s) lat moon_entry_lon (Fin (- 1)) moon_at_perigee"
  show ?thesis
  proof (cases "c = 0")
    case True
    with assms have "?b0 = Found NaN" "?b1 = Bail"
      by (simp_all add: riseset_body_cases riseset_candidate_def l Fin_divide_zero js_ge_def)
    then show ?thesis by simp
  next
    case False
    with c have pos: "0 < c" by simp
    from False have l0: "riseset_cos_lha (Fin 0) (Fin 1) (Fin 0) moon_at_perigee = Fin 0"
      and l1: "riseset_cos_lha (Fin 0) (Fin 1) (Fin s) moon_at_perigee = Fin (s / c)"
      by (simp_all add: l)
    have c0: "riseset_candidate (Fin 0) (Fin 1) (Fin 0) lat moon_entry_lon (Fin (- 1)) moon_at_perigee
        = Fin (v - 13713440.9 * (pi / 2))"
      by (simp add: riseset_candidate_def l0 v)
    from l0 have b0: "?b0 = Again (Fin (v - 13713440.9 * (pi / 2)))
        \<or> ?b0 = Found (Fin (v - 13713440.9 * (pi / 2)))"
      using riseset_body_shape [of "Fin 0" "Fin 1" "Fin 0" moon_at_perigee lat moon_entry_lon "Fin (- 1)"]
      by (simp add: c0)
    show ?thesis
    proof (cases "\<bar>s / c\<bar> \<le> 1")
      case True
      from assms pos have "s / c \<noteq> 0" by simp
      have ne: "arccos (s / c) \<noteq> pi / 2"
      proof
        assume "arccos (s / c) = pi / 2"
        with True have "s / c = 0" by (rule arccos_half_pi)
        with \<open>s / c \<noteq> 0\<close> show False by simp
      qed
      have c1: "riseset_candidate (Fin 0) (Fin 1) (Fin s) lat moon_entry_lon (Fin (- 1)) moon_at_perigee
          = Fin (v - 13713440.9 * arccos (s / c))"
        using True by (simp add: riseset_candidate_def l1 v)
      from True l1 have "?b1 = Again (Fin (v - 13713440.9 * arccos (s / c)))
          \<or> ?b1 = Found (Fin (v - 13713440.9 * arccos (s / c)))"
        using riseset_body_shape [of "Fin 0" "Fin 1" "Fin s" moon_at_perigee lat moon_entry_lon "Fin (- 1)"]
        by (simp add: c1)
      with b0 ne show ?thesis by auto
    next
      case False
      then have "?b1 = Bail" by (simp add: riseset_body_cases l1)
      with b0 show ?thesis by auto
    qed
  qed
qed

section \<open>The threshold of the Moon\<close>

text \<open>
  Claim C1, as amended. \<^verbatim>\<open>Moon.rise\<close> and \<^verbatim>\<open>Moon.set\<close> call the solver with the threshold
  \<open>-0.583 - parallax(distance)\<close> degrees, evaluated once, on the distance the Moon has when
  the method is called. \<open>sin_h0\<close> is computed from it before the loop, and every evaluation
  of the loop uses that value: whatever state \<open>b\<close> the iteration has reached, the call is
  decided there by the loop body on the entry's \<open>sin_h0\<close>.
\<close>

theorem Moon_threshold_fixed_at_entry:
  fixes lat lon direction :: number
  defines "sl \<equiv> Math_sin (lat * (Math_PI / Fin 180))"
    and "cl \<equiv> Math_cos (lat * (Math_PI / Fin 180))"
  assumes "call = Moon_rise this lat lon \<and> direction = Fin (- 1)
      \<or> call = Moon_set this lat lon \<and> direction = Fin 1"
    and "riseset_at Moon_setTime sl cl (Moon_sin_h0 this) lat lon direction k this = Some b"
  shows "call = riseset Moon_setTime this lat lon (Fin (- 0.583) - parallax (distance this)) direction
     \<and> call =
       (case riseset_body sl cl (Moon_sin_h0 this) lat lon direction b of
          Bail \<Rightarrow> Some (NaN, this)
        | Again t \<Rightarrow>
            (case Moon_setTime b t of
               None \<Rightarrow> None
             | Some b' \<Rightarrow>
                 riseset_loop Moon_setTime this sl cl (Moon_sin_h0 this) lat lon direction b')
        | Found t \<Rightarrow> Some (t, this))"
proof -
  from assms(3) have c: "call = riseset Moon_setTime this lat lon
      (Fin (- 0.583) - parallax (distance this)) direction"
    by (auto simp add: Moon_rise_def Moon_set_def)
  then have "call = riseset_loop Moon_setTime this sl cl (Moon_sin_h0 this) lat lon direction this"
    by (simp add: riseset_def Let_def sl_def cl_def Moon_sin_h0_def)
  with c riseset_loop_at [OF assms(4)] show ?thesis by simp
qed

lemma zero_latitude:
  "Math_sin (Fin 0 * (Math_PI / Fin 180)) = Fin 0" "Math_cos (Fin 0 * (Math_PI / Fin 180)) = Fin 1"
  by (simp_all add: Math_PI_def)

theorem Moon_threshold_fixed_at_entry_witness:
  "riseset_at Moon_setTime (Math_sin (Fin 0 * (Math_PI / Fin 180)))
       (Math_cos (Fin 0 * (Math_PI / Fin 180))) (Moon_sin_h0 moon_entry) (Fin 0) moon_entry_lon
       (Fin (- 1)) (Suc 0) moon_entry = Some moon_at_perigee
   \<and> Moon_rise moon_entry (Fin 0) moon_entry_lon =
       (case riseset_body (Math_sin (Fin 0 * (Math_PI / Fin 180)))
            (Math_cos (Fin 0 * (Math_PI / Fin 180))) (Moon_sin_h0 moon_entry) (Fin 0)
            moon_entry_lon (Fin (- 1)) moon_at_perigee of
          Bail \<Rightarrow> Some (NaN, moon_entry)
        | Again t \<Rightarrow>
            (case Moon_setTime moon_at_perigee t of
               None \<Rightarrow> None
             | Some b' \<Rightarrow>
                 riseset_loop Moon_setTime moon_entry (Math_sin (Fin 0 * (Math_PI / Fin 180)))
                   (Math_cos (Fin 0 * (Math_PI / Fin 180))) (Moon_sin_h0 moon_entry) (Fin 0)
                   moon_entry_lon (Fin (- 1)) b')
        | Found t \<Rightarrow> Some (t, moon_entry))"
proof -
  have a: "riseset_at Moon_setTime (Math_sin (Fin 0 * (Math_PI / Fin 180)))
       (Math_cos (Fin 0 * (Math_PI / Fin 180))) (Moon_sin_h0 moon_entry) (Fin 0) moon_entry_lon
       (Fin (- 1)) (Suc 0) moon_entry = Some moon_at_perigee"
    unfolding zero_latitude moon_entry_sin_h0 by (rule moon_entry_next)
  have d: "Moon_rise moon_entry (Fin 0) moon_entry_lon = Moon_rise moon_entry (Fin 0) moon_entry_lon
      \<and> Fin (- 1) = Fin (- 1)
    \<or> Moon_rise moon_entry (Fin 0) moon_entry_lon = Moon_set moon_entry (Fin 0) moon_entry_lon
      \<and> Fin (- 1) = Fin 1"
    by simp
  from Moon_threshold_fixed_at_entry [OF d a, THEN conjunct2] a show ?thesis
    by (rule conjI [rotated])
qed

text \<open>
  The threshold is not recomputed on the current distance. From the entry state above the
  first evaluation steps to the perigee, where the Moon's distance, and so
  \<open>-0.583 - parallax(distance)\<close>, is another one; the second evaluation, made on the
  entry's \<open>sin_h0\<close>, has another outcome than the same evaluation on the \<open>sin_h0\<close> of the
  current distance.
\<close>

theorem Moon_threshold_not_recomputed:
  "riseset_at Moon_setTime (Math_sin (Fin 0 * (Math_PI / Fin 180)))
       (Math_cos (Fin 0 * (Math_PI / Fin 180))) (Moon_sin_h0 moon_entry) (Fin 0) moon_entry_lon
       (Fin (- 1)) (Suc 0) moon_entry = Some moon_at_perigee
   \<and> Moon_setTime moon_entry (Fin perigee) = Some moon_at_perigee
   \<and> riseset_body (Math_sin (Fin 0 * (Math_PI / Fin 180)))
       (Math_cos (Fin 0 * (Math_PI / Fin 180))) (Moon_sin_h0 moon_entry) (Fin 0) moon_entry_lon
       (Fin (- 1)) moon_at_perigee
     \<noteq> riseset_body (Math_sin (Fin 0 * (Math_PI / Fin 180)))
       (Math_cos (Fin 0 * (Math_PI / Fin 180))) (Moon_sin_h0 moon_at_perigee) (Fin 0) moon_entry_lon
       (Fin (- 1)) moon_at_perigee"
proof -
  from moon_at_perigee_sin_h0 obtain s where s: "Moon_sin_h0 moon_at_perigee = Fin s" "s < 0"
    by blast
  have "Moon_setTime moon_entry (Fin perigee) = Some moon_at_perigee"
    by (simp add: Moon_perigee moon_at_perigee_def)
  with moon_entry_next [of "Fin 0"] moon_at_perigee_differs [OF s(2), of "Fin 0"]
  show ?thesis
    unfolding zero_latitude moon_entry_sin_h0 s(1) by simp
qed

section \<open>Convergence of the Kepler iteration\<close>

subsection \<open>Chords of sine and cosine\<close>

lemma sin_chord:
  assumes "0 \<le> a" "a \<le> b" "b \<le> pi"
  shows "(b - a) * cos b \<le> sin b - sin a \<and> sin b - sin a \<le> (b - a) * cos a"
proof (cases "a = b")
  case True
  then show ?thesis by simp
next
  case False
  with assms have "a < b" by simp
  then obtain z where z: "a < z" "z < b" "sin b - sin a = (b - a) * cos z"
    using MVT2 [of a b sin cos] by (auto intro: derivative_eq_intros)
  from z assms have "cos b \<le> cos z" "cos z \<le> cos a"
    by (auto intro: cos_monotone_0_pi_le)
  with \<open>a < b\<close> z(3) show ?thesis by (simp add: mult_left_mono)
qed

lemma cos_lipschitz: "\<bar>cos a - cos b\<bar> \<le> \<bar>a - b\<bar>" for a b :: real
proof -
  have "\<bar>cos a - cos b\<bar> = 2 * \<bar>sin ((a + b) / 2)\<bar> * \<bar>sin ((b - a) / 2)\<bar>"
    unfolding cos_diff_cos [of a b] by (simp add: abs_mult)
  also have "\<dots> \<le> 2 * 1 * \<bar>(b - a) / 2\<bar>"
    by (intro mult_mono abs_sin_x_le_abs_x) (auto simp add: abs_sin_le_one)
  finally show ?thesis by simp
qed

lemma cos_chord:
  assumes "0 \<le> a" "a \<le> b" "b \<le> pi"
  shows "0 \<le> cos a - cos b \<and> cos a - cos b \<le> b - a"
proof -
  from assms have "cos b \<le> cos a" by (intro cos_monotone_0_pi_le)
  moreover from cos_lipschitz [of a b] assms have "cos a - cos b \<le> b - a" by simp
  ultimately show ?thesis by simp
qed

lemma sin_ge_x_cos:
  assumes "0 \<le> v" "v \<le> pi"
  shows "v * cos v \<le> sin v"
  using sin_chord [of 0 v] assms by simp

subsection \<open>Newton steps on Kepler's equation\<close>

lemma slope_pos:
  fixes e E :: real
  assumes "0 \<le> e" "e \<le> 9 / 10"
  shows "1 / 10 \<le> 1 - e * cos E"
proof -
  have "e * cos E \<le> e * 1" by (rule mult_left_mono [OF cos_le_one assms(1)])
  with assms(2) show ?thesis by simp
qed

text \<open>One Newton step from the right of the root \<open>Es\<close>, inside \<open>[0, \<pi>]\<close>.\<close>

lemma newton_right:
  assumes e: "0 \<le> e" "e \<le> 9 / 10"
    and root: "0 \<le> Es" "Es - e * sin Es = M"
    and E: "Es \<le> E" "E \<le> pi"
  shows "Es \<le> E + kepler_dE M e E" "E + kepler_dE M e E \<le> E"
    and "\<bar>kepler_dE M e E\<bar> \<le> E - Es"
    and "(E + kepler_dE M e E - Es) * (1 + 9 * (E - Es)) \<le> 9 * (E - Es) * (E - Es)"
proof -
  define eps where "eps = E - Es"
  define g where "g = 1 - e * cos E"
  define gs where "gs = 1 - e * cos Es"
  define d where "d = g - gs"
  define F where "F = eps - e * (sin E - sin Es)"
  have eps: "0 \<le> eps" using E(1) by (simp add: eps_def)
  have g: "1 / 10 \<le> g" and gs: "1 / 10 \<le> gs"
    unfolding g_def gs_def using e by (rule slope_pos)+
  from sin_chord [OF root(1) E] have ch: "eps * cos E \<le> sin E - sin Es"
      "sin E - sin Es \<le> eps * cos Es"
    by (simp_all add: eps_def)
  from cos_chord [OF root(1) E] have cc: "0 \<le> cos Es - cos E" "cos Es - cos E \<le> eps"
    by (simp_all add: eps_def)
  have F_lo: "gs * eps \<le> F"
  proof -
    have "e * (sin E - sin Es) \<le> e * (eps * cos Es)" using ch(2) e(1) by (rule mult_left_mono)
    then show ?thesis by (simp add: F_def gs_def algebra_simps)
  qed
  have F_hi: "F \<le> g * eps"
  proof -
    have "e * (eps * cos E) \<le> e * (sin E - sin Es)" using ch(1) e(1) by (rule mult_left_mono)
    then show ?thesis by (simp add: F_def g_def algebra_simps)
  qed
  have dE: "kepler_dE M e E = - F / g"
    by (simp add: kepler_dE_def F_def g_def eps_def root(2) [symmetric] algebra_simps)
  have gpos: "0 < g" using g by simp
  have F0: "0 \<le> F" using F_lo gs eps by (meson mult_nonneg_nonneg order_trans zero_le_divide_1_iff zero_le_numeral)
  have Fg: "F / g \<le> eps" using F_hi gpos by (simp add: pos_divide_le_eq mult.commute)
  have Fg0: "0 \<le> F / g" using F0 gpos by simp
  show a: "Es \<le> E + kepler_dE M e E" using Fg by (simp add: dE eps_def)
  show b: "E + kepler_dE M e E \<le> E" using Fg0 by (simp add: dE)
  show "\<bar>kepler_dE M e E\<bar> \<le> E - Es" using Fg Fg0 by (simp add: dE eps_def)
  have d0: "0 \<le> d" and d1: "d \<le> 9 * eps * gs"
  proof -
    have deq: "d = e * (cos Es - cos E)" by (simp add: d_def g_def gs_def algebra_simps)
    show "0 \<le> d" unfolding deq using e(1) cc(1) by simp
    have "d \<le> e * eps" unfolding deq using cc(2) e(1) by (rule mult_left_mono)
    also have "\<dots> \<le> 9 / 10 * eps" using e(2) eps by (rule mult_right_mono)
    also have "\<dots> = 9 * eps * (1 / 10)" by simp
    also have "\<dots> \<le> 9 * eps * gs" using gs eps by (intro mult_left_mono) simp_all
    finally show "d \<le> 9 * eps * gs" .
  qed
  define eps' where "eps' = E + kepler_dE M e E - Es"
  have e': "eps' = eps - F / g" by (simp add: eps'_def dE eps_def)
  have "eps' * g = eps * g - F" using gpos by (simp add: e' field_simps)
  also have "\<dots> \<le> eps * g - gs * eps" using F_lo by simp
  also have "\<dots> = eps * d" by (simp add: d_def algebra_simps)
  finally have key: "eps' * g \<le> eps * d" .
  have e'0: "0 \<le> eps'" using a by (simp add: eps'_def)
  have "eps' * (1 + 9 * eps) * g = (eps' * g) * (1 + 9 * eps)" by simp
  also have "\<dots> \<le> (eps * d) * (1 + 9 * eps)"
    using key eps by (intro mult_right_mono) simp_all
  also have "\<dots> = eps * (d + 9 * eps * d)" by (simp add: algebra_simps)
  also have "\<dots> \<le> eps * (9 * eps * gs + 9 * eps * d)"
    using d1 eps by (intro mult_left_mono) simp_all
  also have "\<dots> = 9 * eps * eps * g" by (simp add: d_def algebra_simps)
  finally have "eps' * (1 + 9 * eps) * g \<le> 9 * eps * eps * g" .
  with gpos have "eps' * (1 + 9 * eps) \<le> 9 * eps * eps" by simp
  then show "(E + kepler_dE M e E - Es) * (1 + 9 * (E - Es)) \<le> 9 * (E - Es) * (E - Es)"
    by (simp add: eps'_def eps_def)
qed

lemma kepler_root:
  assumes "0 \<le> e" "e \<le> 9 / 10" "0 \<le> M" "M \<le> pi"
  shows "\<exists>Es. M \<le> Es \<and> Es \<le> pi \<and> Es - e * sin Es = M"
proof -
  have "M - e * sin M \<le> M" using assms(1,3,4) by (simp add: sin_ge_zero)
  moreover have "M \<le> pi - e * sin pi" using assms(4) by simp
  moreover have "continuous_on {M..pi} (\<lambda>E. E - e * sin E)"
    by (intro continuous_intros)
  ultimately show ?thesis
    using IVT' [of "\<lambda>E. E - e * sin E" M M pi] assms(4) by blast
qed

lemma half_angle_quadratic:
  fixes s c t k :: real
  assumes "0 \<le> c" "t * c \<le> s" "0 < t" "1 \<le> 19 * t * t" "k = 1 / (10 * t) + 19 / 10 * t"
  shows "k * (s * c) \<le> 1 / 10 * (c * c) + 19 / 10 * (s * s)"
proof -
  from assms(1-3) have s: "0 \<le> s" by (meson mult_nonneg_nonneg less_imp_le order_trans)
  have "0 \<le> (s - t * c) * (19 / 10 * s - 1 / (10 * t) * c)"
  proof (rule mult_nonneg_nonneg)
    show "0 \<le> s - t * c" using assms(2) by simp
    have "1 / (10 * t) * c \<le> 19 / 10 * t * c"
    proof (rule mult_right_mono)
      show "1 / (10 * t) \<le> 19 / 10 * t" using assms(3,4) by (simp add: field_simps)
    qed (rule assms(1))
    also have "\<dots> = 19 / 10 * (t * c)" by simp
    also have "\<dots> \<le> 19 / 10 * s" by (rule mult_left_mono [OF assms(2)]) simp
    finally show "0 \<le> 19 / 10 * s - 1 / (10 * t) * c" by simp
  qed
  also have "(s - t * c) * (19 / 10 * s - 1 / (10 * t) * c)
      = 19 / 10 * (s * s) + 1 / 10 * (c * c) - k * (s * c)"
    using assms(3) by (simp add: assms(5) field_simps)
  finally show ?thesis by simp
qed

lemma first_step_bound_09:
  assumes "0 \<le> u" "u \<le> pi / 2"
  shows "9 / 10 * sin u \<le> (pi - u) * (1 - 9 / 10 * cos u)"
proof -
  define s where "s = sin (u / 2)"
  define c where "c = cos (u / 2)"
  have c0: "0 \<le> c" unfolding c_def using assms by (intro cos_ge_zero) simp_all
  have s0: "0 \<le> s" unfolding s_def using assms by (intro sin_ge_zero) simp_all
  have one: "s * s + c * c = 1" unfolding s_def c_def by (rule sin_cos_products)
  have su: "sin u = 2 * (s * c)" using sin_double [of "u / 2"] by (simp add: s_def c_def)
  have "cos u = c * c - s * s"
    using cos_double [of "u / 2"] by (simp add: s_def c_def power2_eq_square)
  with one have cu: "1 - 9 / 10 * cos u = 1 / 10 * (c * c) + 19 / 10 * (s * s)"
    by (simp add: algebra_simps)
  have half: "u / 2 * c \<le> s"
    unfolding s_def c_def using assms pi_ge_3 by (intro sin_ge_x_cos) simp_all
  define p where "p = s * c"
  have sc: "0 \<le> p" unfolding p_def using s0 c0 by simp
  define Q where "Q = 1 / 10 * (c * c) + 19 / 10 * (s * s)"
  have Q0: "0 \<le> Q" unfolding Q_def by simp
  have goal: "9 / 5 * p \<le> (pi - u) * Q"
  proof -
    consider "u \<le> 93 / 100" | "93 / 100 \<le> u" "u \<le> 136 / 100" | "136 / 100 \<le> u"
      by linarith
    then show ?thesis
    proof cases
      case 1
      have "0 \<le> 1 / 10 * ((c - 87 / 20 * s) * (c - 87 / 20 * s)) + 31 / 4000 * (s * s)"
        by simp
      also have "\<dots> = Q - 87 / 100 * p" by (simp add: Q_def p_def algebra_simps)
      finally have q: "87 / 100 * p \<le> Q" by simp
      from 1 pi_ge_3 have A: "207 / 100 \<le> pi - u" by simp
      have "9 / 5 * p \<le> 207 / 100 * (87 / 100 * p)" using sc by simp
      also have "\<dots> \<le> 207 / 100 * Q" using q by simp
      also have "\<dots> \<le> (pi - u) * Q" using A Q0 by (rule mult_right_mono)
      finally show ?thesis .
    next
      case 2
      have "93 / 200 * c \<le> u / 2 * c" using 2(1) c0 by (intro mult_right_mono) simp_all
      with half have t: "93 / 200 * c \<le> s" by simp
      have q: "(1 / (10 * (93 / 200)) + 19 / 10 * (93 / 200)) * p \<le> Q"
        unfolding Q_def p_def by (rule half_angle_quadratic [OF c0 t]) simp_all
      from 2 pi_ge_3 have A: "164 / 100 \<le> pi - u" by simp
      have "9 / 5 * p \<le> 164 / 100 * ((1 / (10 * (93 / 200)) + 19 / 10 * (93 / 200)) * p)"
        using sc by simp
      also have "\<dots> \<le> 164 / 100 * Q" using q by simp
      also have "\<dots> \<le> (pi - u) * Q" using A Q0 by (rule mult_right_mono)
      finally show ?thesis .
    next
      case 3
      have "17 / 25 * c \<le> u / 2 * c" using 3 c0 by (intro mult_right_mono) simp_all
      with half have t: "17 / 25 * c \<le> s" by simp
      have q: "(1 / (10 * (17 / 25)) + 19 / 10 * (17 / 25)) * p \<le> Q"
        unfolding Q_def p_def by (rule half_angle_quadratic [OF c0 t]) simp_all
      from assms pi_ge_3 have A: "3 / 2 \<le> pi - u" by simp
      have "9 / 5 * p \<le> 3 / 2 * ((1 / (10 * (17 / 25)) + 19 / 10 * (17 / 25)) * p)"
        using sc by simp
      also have "\<dots> \<le> 3 / 2 * Q" using q by simp
      also have "\<dots> \<le> (pi - u) * Q" using A Q0 by (rule mult_right_mono)
      finally show ?thesis .
    qed
  qed
  from goal have "9 / 10 * (2 * p) \<le> (pi - u) * Q" by simp
  then show ?thesis unfolding su cu p_def Q_def .
qed

lemma first_step_bound:
  assumes "0 \<le> e" "e \<le> 9 / 10" "0 \<le> u" "u \<le> pi / 2"
  shows "e * sin u \<le> (pi - u) * (1 - e * cos u)"
proof -
  define A where "A = pi - u"
  define C where "C = cos u"
  define S where "S = sin u"
  have c: "0 \<le> C" unfolding C_def using assms(3,4) by (intro cos_ge_zero) simp_all
  have s: "0 \<le> S" unfolding S_def using assms(3,4) by (intro sin_ge_zero) simp_all
  have p: "0 \<le> A" unfolding A_def using assms(3,4) by linarith
  have b: "0 \<le> A * C + S" using c s p by simp
  have "9 / 10 * S \<le> A * (1 - 9 / 10 * C)"
    unfolding A_def C_def S_def by (rule first_step_bound_09 [OF assms(3,4)])
  then have nine: "9 / 10 * (A * C + S) \<le> A" by (simp add: algebra_simps)
  have "e * (A * C + S) \<le> 9 / 10 * (A * C + S)"
    using assms(2) b by (rule mult_right_mono)
  also note nine
  finally have "e * S \<le> A * (1 - e * C)" by (simp add: algebra_simps)
  then show ?thesis unfolding A_def C_def S_def .
qed

lemma seed_range:
  fixes e M :: real
  assumes "0 \<le> e" "e \<le> 9 / 10" "0 \<le> M" "M \<le> pi"
  shows "M \<le> M + e * sin M" "M + e * sin M \<le> pi"
proof -
  have s: "0 \<le> sin M" using assms(3,4) by (rule sin_ge_zero)
  then show "M \<le> M + e * sin M" using assms(1) by simp
  have "sin (pi - M) \<le> pi - M" using assms(4) by (intro sin_x_le_x) simp
  then have "sin M \<le> pi - M" by simp
  moreover have "e * sin M \<le> 1 * sin M" using assms(2) s by (intro mult_right_mono) simp_all
  ultimately show "M + e * sin M \<le> pi" by simp
qed

lemma first_step:
  assumes e: "0 \<le> e" "e \<le> 9 / 10" and M: "0 \<le> M" "M \<le> pi"
    and root: "M \<le> Es" "Es \<le> pi" "Es - e * sin Es = M"
  shows "Es \<le> M + e * sin M + kepler_dE M e (M + e * sin M)"
    and "M + e * sin M + kepler_dE M e (M + e * sin M) \<le> pi"
proof -
  define E0 where "E0 = M + e * sin M"
  have E0: "M \<le> E0" "E0 \<le> pi" unfolding E0_def using seed_range [OF e M] by simp_all
  have Es0: "0 \<le> Es" using M(1) root(1) by simp
  have both: "Es \<le> E0 + kepler_dE M e E0 \<and> E0 + kepler_dE M e E0 \<le> pi"
  proof (cases "Es \<le> E0")
    case True
    from newton_right(1,2) [OF e Es0 root(3) True E0(2)] E0(2) show ?thesis by simp
  next
    case False
    then have lt: "E0 < Es" by simp
    define g0 where "g0 = 1 - e * cos E0"
    define gM where "gM = 1 - e * cos M"
    define r0 where "r0 = M - (E0 - e * sin E0)"
    have g0: "1 / 10 \<le> g0" and gM: "1 / 10 \<le> gM"
      unfolding g0_def gM_def using e by (rule slope_pos)+
    have g0pos: "0 < g0" and gMpos: "0 < gM" using g0 gM by simp_all
    have dE: "kepler_dE M e E0 = r0 / g0" by (simp add: kepler_dE_def r0_def g0_def)
    have E00: "0 \<le> E0" using M(1) E0(1) by simp
    from sin_chord [OF E00 _ root(2), of ] lt
    have "sin Es - sin E0 \<le> (Es - E0) * cos E0" by simp
    then have "e * (sin Es - sin E0) \<le> e * ((Es - E0) * cos E0)"
      using e(1) by (rule mult_left_mono)
    moreover have "r0 = (Es - E0) - e * (sin Es - sin E0)"
      by (simp add: r0_def root(3) [symmetric] algebra_simps)
    ultimately have lo: "(Es - E0) * g0 \<le> r0" by (simp add: g0_def algebra_simps)
    then have "Es - E0 \<le> r0 / g0" using g0pos by (simp add: pos_le_divide_eq)
    then have lower: "Es \<le> E0 + kepler_dE M e E0" by (simp add: dE)
    have r0pos: "0 < r0"
    proof -
      have "0 < (Es - E0) * g0" using lt g0pos by simp
      with lo show ?thesis by simp
    qed
    have r0eq: "r0 = e * (sin E0 - sin M)" by (simp add: r0_def E0_def algebra_simps)
    from sin_chord [OF M(1) E0] have "sin E0 - sin M \<le> (E0 - M) * cos M" by simp
    then have "e * (sin E0 - sin M) \<le> e * ((E0 - M) * cos M)"
      using e(1) by (rule mult_left_mono)
    then have r0hi: "r0 \<le> e * (e * sin M) * cos M" by (simp add: r0eq E0_def algebra_simps)
    have sM: "0 \<le> sin M" using M by (rule sin_ge_zero)
    have cpos: "0 < cos M"
    proof (rule ccontr)
      assume "\<not> 0 < cos M"
      then have "cos M \<le> 0" by simp
      moreover have "0 \<le> e * (e * sin M)" using e(1) sM by simp
      ultimately have "e * (e * sin M) * cos M \<le> 0" by (simp add: mult_nonneg_nonpos)
      with r0hi r0pos show False by simp
    qed
    have Mhalf: "M \<le> pi / 2"
    proof (rule ccontr)
      assume "\<not> M \<le> pi / 2"
      then have "pi / 2 \<le> M" by simp
      then have "cos M \<le> cos (pi / 2)" using M(2) by (intro cos_monotone_0_pi_le) simp_all
      with cpos show False by simp
    qed
    have "cos E0 \<le> cos M" using M(1) E0 by (rule cos_monotone_0_pi_le)
    then have "e * cos E0 \<le> e * cos M" using e(1) by (rule mult_left_mono)
    then have gle: "gM \<le> g0" by (simp add: g0_def gM_def)
    have "r0 / g0 \<le> r0 / gM" using gle gMpos r0pos by (intro divide_left_mono) simp_all
    also have "\<dots> \<le> (e * (e * sin M) * cos M) / gM"
      using r0hi gMpos by (intro divide_right_mono) simp_all
    finally have step: "kepler_dE M e E0 \<le> (e * (e * sin M) * cos M) / gM" by (simp add: dE)
    have "e * sin M \<le> (pi - M) * gM"
      unfolding gM_def using e M(1) Mhalf by (rule first_step_bound)
    then have u: "e * sin M / gM \<le> pi - M" using gMpos by (simp add: pos_divide_le_eq)
    have "e * sin M + (e * (e * sin M) * cos M) / gM = e * sin M / gM"
      using gMpos by (simp add: gM_def field_simps)
    with step u have "E0 + kepler_dE M e E0 \<le> pi" by (simp add: E0_def)
    with lower show ?thesis by simp
  qed
  then show "Es \<le> M + e * sin M + kepler_dE M e (M + e * sin M)"
    and "M + e * sin M + kepler_dE M e (M + e * sin M) \<le> pi"
    by (simp_all add: E0_def)
qed

subsection \<open>Counting the evaluations\<close>

lemma kepler_chain_ok: "chain_ok kepler_chain"
  by (simp add: kepler_chain_def)

lemma kepler_chain_length: "length kepler_chain = 47"
  by (simp add: kepler_chain_def)

lemma kepler_chain_hd: "\<exists>bs. kepler_chain = 4 # bs"
  by (simp add: kepler_chain_def)

lemma majorant_mono:
  fixes a b eps eps' :: real
  assumes "0 \<le> eps" "eps \<le> a" "0 \<le> eps'"
    and "eps' * (1 + 9 * eps) \<le> 9 * eps * eps"
    and "9 * a * a \<le> b * (1 + 9 * a)"
  shows "eps' \<le> b"
proof -
  have a0: "0 \<le> a" using assms(1,2) by simp
  have pa: "0 < 1 + 9 * a" and pe: "0 < 1 + 9 * eps" using a0 assms(1) by simp_all
  have "0 \<le> (a - eps) * (a + eps) + 9 * (a * eps) * (a - eps)"
    using assms(1,2) a0 by (intro add_nonneg_nonneg mult_nonneg_nonneg) simp_all
  also have "\<dots> = a * a * (1 + 9 * eps) - eps * eps * (1 + 9 * a)"
    by (simp add: algebra_simps)
  finally have mono: "eps * eps * (1 + 9 * a) \<le> a * a * (1 + 9 * eps)" by simp
  have "eps' * (1 + 9 * eps) * (1 + 9 * a) \<le> 9 * eps * eps * (1 + 9 * a)"
    using assms(4) pa by (intro mult_right_mono) simp_all
  also have "\<dots> = 9 * (eps * eps * (1 + 9 * a))" by simp
  also have "\<dots> \<le> 9 * (a * a * (1 + 9 * eps))" using mono by simp
  also have "\<dots> = (9 * a * a) * (1 + 9 * eps)" by simp
  also have "\<dots> \<le> (b * (1 + 9 * a)) * (1 + 9 * eps)"
    using assms(5) pe by (intro mult_right_mono) simp_all
  finally have "eps' * ((1 + 9 * eps) * (1 + 9 * a)) \<le> b * ((1 + 9 * eps) * (1 + 9 * a))"
    by (simp add: algebra_simps)
  moreover have "0 < (1 + 9 * eps) * (1 + 9 * a)" using pa pe by simp
  ultimately show ?thesis by (simp only: mult_le_cancel_right_pos)
qed

lemma run_chain:
  assumes e: "0 \<le> e" "e \<le> 9 / 10" and root: "0 \<le> Es" "Es - e * sin Es = M"
  shows "chain_ok (a # bs) \<Longrightarrow> Es \<le> E \<Longrightarrow> E \<le> pi \<Longrightarrow> E - Es \<le> a
    \<Longrightarrow> \<exists>r. kepler_run (Suc (length bs)) M e E = Some r"
proof (induction bs arbitrary: a E)
  case Nil
  from newton_right(3) [OF e root Nil(2,3)] Nil(1,4)
  have "\<bar>kepler_dE M e E\<bar> \<le> 1 / 10 ^ 8" by simp
  then show ?case by simp
next
  case (Cons b bs)
  show ?case
  proof (cases "\<bar>kepler_dE M e E\<bar> \<le> 1 / 10 ^ 8")
    case True
    then show ?thesis by simp
  next
    case False
    let ?E' = "E + kepler_dE M e E"
    note n = newton_right [OF e root Cons.prems(2,3)]
    from Cons.prems(1) have ok: "9 * a * a \<le> b * (1 + 9 * a)" "chain_ok (b # bs)" by simp_all
    have "?E' - Es \<le> b"
    proof (rule majorant_mono [OF _ Cons.prems(4) _ _ ok(1)])
      show "0 \<le> E - Es" using Cons.prems(2) by simp
      show "0 \<le> ?E' - Es" using n(1) by simp
      show "(?E' - Es) * (1 + 9 * (E - Es)) \<le> 9 * (E - Es) * (E - Es)" by (rule n(4))
    qed
    moreover have "?E' \<le> pi" using n(2) Cons.prems(3) by simp
    ultimately have "\<exists>r. kepler_run (Suc (length bs)) M e ?E' = Some r"
      using ok(2) n(1) by (intro Cons.IH) simp_all
    with False show ?thesis by simp
  qed
qed

lemma kepler_run_more:
  "kepler_run n M e E = Some r \<Longrightarrow> n \<le> m \<Longrightarrow> kepler_run m M e E = Some r"
proof (induction n arbitrary: m E)
  case 0
  then show ?case by simp
next
  case (Suc n)
  from Suc.prems(2) obtain m' where m: "m = Suc m'" "n \<le> m'" by (cases m) simp_all
  show ?case
  proof (cases "\<bar>kepler_dE M e E\<bar> \<le> 1 / 10 ^ 8")
    case True
    with Suc.prems(1) show ?thesis by (simp add: m)
  next
    case False
    with Suc.prems(1) have "kepler_run n M e (E + kepler_dE M e E) = Some r" by simp
    from Suc.IH [OF this m(2)] False show ?thesis by (simp add: m)
  qed
qed

lemma kepler_run_lower_half:
  assumes e: "0 \<le> e" "e \<le> 9 / 10" and M: "0 \<le> M" "M \<le> pi"
  shows "\<exists>r. kepler_run 48 M e (M + e * sin M) = Some r"
proof -
  from kepler_root [OF e M] obtain Es where root: "M \<le> Es" "Es \<le> pi" "Es - e * sin Es = M"
    by blast
  let ?E0 = "M + e * sin M"
  let ?E1 = "?E0 + kepler_dE M e ?E0"
  note f = first_step [OF e M root]
  have Es0: "0 \<le> Es" using M(1) root(1) by simp
  from kepler_chain_hd obtain bs where c: "kepler_chain = 4 # bs" by blast
  from kepler_chain_ok have ok: "chain_ok (4 # bs)" unfolding c .
  from kepler_chain_length have len: "length bs = 46" unfolding c by simp
  have "?E1 - Es \<le> 4" using f(2) Es0 pi_less_4 by simp
  from run_chain [OF e Es0 root(3) ok f(1) f(2) this] len
  have r: "\<exists>r. kepler_run 47 M e ?E1 = Some r" by simp
  have "kepler_run 48 M e ?E0 = kepler_run (Suc 47) M e ?E0" by simp
  also have "\<dots> = (if \<bar>kepler_dE M e ?E0\<bar> \<le> 1 / 10 ^ 8 then Some ?E1
      else kepler_run 47 M e ?E1)"
    by (simp only: kepler_run.simps)
  finally show ?thesis using r by auto
qed

lemma kepler_fuel_loop:
  "kepler_fuel n M e E = Some r \<Longrightarrow> kepler_loop M e E = Some r"
proof (induction n arbitrary: E)
  case 0
  then show ?case by simp
next
  case (Suc n)
  let ?dE = "(M - (E - e * Math_sin E)) / (Fin 1 - e * Math_cos E)"
  show ?case
  proof (cases "js_le (Math_abs ?dE) (Fin (1 / 10 ^ 8))")
    case True
    with Suc.prems have "r = E + ?dE" by (simp add: Let_def)
    with True show ?thesis by (subst kepler_loop.simps) (simp add: Let_def)
  next
    case False
    with Suc.prems have "kepler_fuel n M e (E + ?dE) = Some r" by (simp add: Let_def)
    then have "kepler_loop M e (E + ?dE) = Some r" by (rule Suc.IH)
    with False show ?thesis by (subst kepler_loop.simps) (simp add: Let_def)
  qed
qed

lemma kepler_fuel_Fin:
  assumes "0 \<le> e" "e \<le> 9 / 10"
  shows "kepler_fuel n (Fin M) (Fin e) (Fin E) = map_option Fin (kepler_run n M e E)"
proof (induction n arbitrary: E)
  case 0
  show ?case by simp
next
  case (Suc n)
  from slope_pos [OF assms, of E] have nz: "1 - e * cos E \<noteq> 0" by simp
  have dE: "(Fin M - (Fin E - Fin e * Math_sin (Fin E))) / (Fin 1 - Fin e * Math_cos (Fin E))
      = Fin (kepler_dE M e E)"
    using nz by (simp add: kepler_dE_def)
  show ?case
    unfolding kepler_fuel.simps kepler_run.simps Let_def dE
    by (simp add: Suc.IH)
qed

lemma sin_first_order:
  fixes a b :: real
  shows "\<bar>sin b - sin a - (b - a) * cos a\<bar> \<le> (b - a) * (b - a)"
proof -
  have *: "\<bar>sin q - sin p - (q - p) * cos p\<bar> \<le> (q - p) * (q - p)
      \<and> \<bar>sin p - sin q - (p - q) * cos q\<bar> \<le> (q - p) * (q - p)" if "p < q" for p q :: real
  proof -
    from that obtain c where c: "p < c" "c < q" "sin q - sin p = (q - p) * cos c"
      using MVT2 [of p q sin cos] by (auto intro: derivative_eq_intros)
    have "\<bar>cos c - cos p\<bar> \<le> \<bar>c - p\<bar>" "\<bar>cos c - cos q\<bar> \<le> \<bar>c - q\<bar>"
      by (rule cos_lipschitz)+
    with c(1,2) have l: "\<bar>cos c - cos p\<bar> \<le> q - p" "\<bar>cos c - cos q\<bar> \<le> q - p" by simp_all
    have "sin q - sin p - (q - p) * cos p = (q - p) * (cos c - cos p)"
      by (simp add: c(3) algebra_simps)
    then have "\<bar>sin q - sin p - (q - p) * cos p\<bar> = (q - p) * \<bar>cos c - cos p\<bar>"
      using that by (simp add: abs_mult)
    also have "\<dots> \<le> (q - p) * (q - p)" using l(1) that by (intro mult_left_mono) simp_all
    finally have one: "\<bar>sin q - sin p - (q - p) * cos p\<bar> \<le> (q - p) * (q - p)" .
    have "sin p - sin q - (p - q) * cos q = (q - p) * (cos q - cos c)"
      using c(3) by (simp add: algebra_simps)
    then have "\<bar>sin p - sin q - (p - q) * cos q\<bar> = (q - p) * \<bar>cos c - cos q\<bar>"
      using that by (simp add: abs_mult abs_minus_commute)
    also have "\<dots> \<le> (q - p) * (q - p)" using l(2) that by (intro mult_left_mono) simp_all
    finally show ?thesis using one by simp
  qed
  consider "a < b" | "b < a" | "a = b" by linarith
  then show ?thesis
  proof cases
    case 1
    from * [OF 1] show ?thesis by simp
  next
    case 2
    from * [OF 2] have "\<bar>sin b - sin a - (b - a) * cos a\<bar> \<le> (a - b) * (a - b)" by simp
    also have "\<dots> = (b - a) * (b - a)" by (simp add: algebra_simps)
    finally show ?thesis .
  next
    case 3
    then show ?thesis by simp
  qed
qed

lemma exit_residual:
  assumes e: "0 \<le> e" "e \<le> 9 / 10" and small: "\<bar>kepler_dE M e E\<bar> \<le> 1 / 10 ^ 8"
  shows "\<bar>M - (E + kepler_dE M e E - e * sin (E + kepler_dE M e E))\<bar> < 1 / 10 ^ 8"
proof -
  define d where "d = kepler_dE M e E"
  define g where "g = 1 - e * cos E"
  from slope_pos [OF e, of E] have g: "g \<noteq> 0" by (simp add: g_def)
  then have num: "M - (E - e * sin E) = g * d"
    by (simp add: d_def kepler_dE_def g_def)
  have "M - (E + d - e * sin (E + d)) = (M - (E - e * sin E)) - d + e * (sin (E + d) - sin E)"
    by (simp add: algebra_simps)
  also have "\<dots> = e * (sin (E + d) - sin E - d * cos E)"
    unfolding num by (simp add: g_def algebra_simps)
  finally have "\<bar>M - (E + d - e * sin (E + d))\<bar> = e * \<bar>sin (E + d) - sin E - d * cos E\<bar>"
    using e(1) by (simp add: abs_mult)
  also have "\<dots> \<le> e * (d * d)"
    using sin_first_order [of "E + d" E] e(1) by (intro mult_left_mono) simp_all
  also have "\<dots> \<le> 9 / 10 * (d * d)" using e(2) by (intro mult_right_mono) simp_all
  also have "d * d = \<bar>d\<bar> * \<bar>d\<bar>" by simp
  also have "\<bar>d\<bar> * \<bar>d\<bar> \<le> 1 / 10 ^ 8 * (1 / 10 ^ 8)"
    using small unfolding d_def by (intro mult_mono) simp_all
  finally have "\<bar>M - (E + d - e * sin (E + d))\<bar> \<le> 9 / 10 * (1 / 10 ^ 8 * (1 / 10 ^ 8))"
    by simp
  also have "\<dots> < 1 / 10 ^ 8" by simp
  finally show ?thesis unfolding d_def .
qed

lemma kepler_run_residual:
  assumes e: "0 \<le> e" "e \<le> 9 / 10"
  shows "kepler_run n M e E = Some r \<Longrightarrow> \<bar>M - (r - e * sin r)\<bar> < 1 / 10 ^ 8"
proof (induction n arbitrary: E)
  case 0
  then show ?case by simp
next
  case (Suc n)
  show ?case
  proof (cases "\<bar>kepler_dE M e E\<bar> \<le> 1 / 10 ^ 8")
    case True
    with Suc.prems have "r = E + kepler_dE M e E" by simp
    with exit_residual [OF e True] show ?thesis by simp
  next
    case False
    with Suc.prems have "kepler_run n M e (E + kepler_dE M e E) = Some r" by simp
    then show ?thesis by (rule Suc.IH)
  qed
qed

lemma kepler_dE_mirror: "kepler_dE (2 * pi - M) e (2 * pi - E) = - kepler_dE M e E"
proof -
  have n: "2 * pi - M - (2 * pi - E - e * sin (2 * pi - E)) = - (M - (E - e * sin E))"
    by simp
  have d: "1 - e * cos (2 * pi - E) = 1 - e * cos E" by simp
  show ?thesis unfolding kepler_dE_def n d by (rule minus_divide_left [symmetric])
qed

lemma kepler_run_mirror:
  "kepler_run n (2 * pi - M) e (2 * pi - E) = map_option (\<lambda>r. 2 * pi - r) (kepler_run n M e E)"
proof (induction n arbitrary: E)
  case 0
  show ?case by simp
next
  case (Suc n)
  have next_E: "2 * pi - E + - kepler_dE M e E = 2 * pi - (E + kepler_dE M e E)" by simp
  show ?case
  proof (cases "\<bar>kepler_dE M e E\<bar> \<le> 1 / 10 ^ 8")
    case True
    then show ?thesis
      by (simp only: kepler_run.simps kepler_dE_mirror abs_minus_cancel next_E if_True option.map)
  next
    case False
    then show ?thesis
      by (simp only: kepler_run.simps kepler_dE_mirror abs_minus_cancel next_E if_False Suc.IH)
  qed
qed

lemma kepler_run_returns:
  assumes e: "0 \<le> e" "e \<le> 9 / 10" and M: "0 \<le> M" "M < 2 * pi"
  shows "\<exists>r. kepler_run 48 M e (M + e * sin M) = Some r"
proof (cases "M \<le> pi")
  case True
  with e M(1) show ?thesis by (intro kepler_run_lower_half)
next
  case False
  define M' where "M' = 2 * pi - M"
  have M': "0 \<le> M'" "M' \<le> pi" using False M(2) by (simp_all add: M'_def)
  from kepler_run_lower_half [OF e M'] obtain r where
    r: "kepler_run 48 M' e (M' + e * sin M') = Some r" by blast
  have seed: "M + e * sin M = 2 * pi - (M' + e * sin M')" by (simp add: M'_def)
  have M_eq: "M = 2 * pi - M'" by (simp add: M'_def)
  have "kepler_run 48 (2 * pi - M') e (2 * pi - (M' + e * sin M')) = Some (2 * pi - r)"
    by (simp only: kepler_run_mirror r option.map)
  then have "kepler_run 48 M e (M + e * sin M) = Some (2 * pi - r)"
    unfolding seed unfolding M_eq [symmetric] .
  then show ?thesis by blast
qed

text \<open>
  Claim C8. \<^verbatim>\<open>setTime\<close> starts the iteration at \<open>M + e\<cdot>sin(M)\<close> and adds
  \<open>(M - (E - e\<cdot>sin E)) / (1 - e\<cdot>cos E)\<close> until the increment is at most \<open>1e-8\<close> in absolute
  value. For every eccentricity in \<open>[0, 0.9]\<close> and every mean anomaly in \<open>[0, 2\<pi>)\<close> the loop
  leaves within 49 evaluations of its body, and the value \<open>E\<close> it leaves with has a
  residual \<open>|M - (E - e\<cdot>sin E)|\<close> below \<open>1e-8\<close>.
\<close>

theorem kepler_converges:
  assumes "0 \<le> e" "e \<le> 9 / 10" "0 \<le> M" "M < 2 * pi"
  shows "\<exists>E. kepler_fuel 49 (Fin M) (Fin e) (Fin M + Fin e * Math_sin (Fin M)) = Some (Fin E)
      \<and> kepler_loop (Fin M) (Fin e) (Fin M + Fin e * Math_sin (Fin M)) = Some (Fin E)
      \<and> \<bar>M - (E - e * sin E)\<bar> < 1 / 10 ^ 8"
proof -
  from kepler_run_returns [OF assms] obtain r where "kepler_run 48 M e (M + e * sin M) = Some r"
    by blast
  then have r: "kepler_run 49 M e (M + e * sin M) = Some r" by (rule kepler_run_more) simp
  then have f: "kepler_fuel 49 (Fin M) (Fin e) (Fin M + Fin e * Math_sin (Fin M)) = Some (Fin r)"
    by (simp add: kepler_fuel_Fin [OF assms(1,2)])
  from f have "kepler_loop (Fin M) (Fin e) (Fin M + Fin e * Math_sin (Fin M)) = Some (Fin r)"
    by (rule kepler_fuel_loop)
  moreover from r have "\<bar>M - (r - e * sin r)\<bar> < 1 / 10 ^ 8"
    by (rule kepler_run_residual [OF assms(1,2)])
  ultimately show ?thesis using f by blast
qed

theorem kepler_converges_witness:
  "(0 :: real) \<le> 1 / 2 \<and> (1 / 2 :: real) \<le> 9 / 10 \<and> (0 :: real) \<le> 1 \<and> (1 :: real) < 2 * pi
   \<and> (\<exists>E. kepler_fuel 49 (Fin 1) (Fin (1 / 2)) (Fin 1 + Fin (1 / 2) * Math_sin (Fin 1)) = Some (Fin E)
      \<and> kepler_loop (Fin 1) (Fin (1 / 2)) (Fin 1 + Fin (1 / 2) * Math_sin (Fin 1)) = Some (Fin E)
      \<and> \<bar>1 - (E - 1 / 2 * sin E)\<bar> < 1 / 10 ^ 8)"
proof -
  have h: "(0 :: real) \<le> 1 / 2" "(1 / 2 :: real) \<le> 9 / 10" "(0 :: real) \<le> 1" "(1 :: real) < 2 * pi"
    using pi_ge_two by simp_all
  from h kepler_converges [OF h] show ?thesis by (intro conjI)
qed

end
